theory Spec2Isabelle
  imports Main "HOL-Library.Sublist" "HOL-Library.Char_ord" "HOL-Library.List_Lexorder"
    "HOL-Library.Multiset" "HOL-Library.Word"
begin

section \<open>Byte strings\<close>

text \<open>
  A \<^verbatim>\<open>std::string\<close> is a sequence of 8-bit bytes that may contain NUL; it is modelled
  as \<^typ>\<open>string\<close>, whose characters are bytes. A D-Bus byte array (\<^verbatim>\<open>GVariant\<close> of type
  \<^verbatim>\<open>ay\<close>) is modelled as \<^typ>\<open>string\<close> as well, and a pointer that may be null as an
  option. Sizes are natural numbers: no string of the program comes near the range of
  \<^verbatim>\<open>size_t\<close>.
\<close>

text \<open>
  \<^verbatim>\<open>c_str()\<close> hands a \<^verbatim>\<open>std::string\<close> over as a C string, which ends at the first NUL.
  \<^verbatim>\<open>make_ay_from_string\<close> (state.cpp) copies the bytes of a C string up to the first NUL.
\<close>

definition c_str :: "string \<Rightarrow> string" where
  "c_str s = takeWhile (\<lambda>c. c \<noteq> CHR 0x00) s"

definition make_ay_from_string :: "string \<Rightarrow> string" where
  "make_ay_from_string str = takeWhile (\<lambda>p. p \<noteq> CHR 0x00) str"

definition state_payload_open :: string where
  \<open>state_payload_open = ''{"state":"''\<close>

definition payload_close :: string where
  \<open>payload_close = ''"}''\<close>

definition make_state_payload :: "string \<Rightarrow> string" where
  "make_state_payload state =
     (let json = state_payload_open @ state @ payload_close
      in make_ay_from_string (c_str json))"

subsection \<open>JSON escaping (state.cpp, \<^verbatim>\<open>json_escape\<close>)\<close>

text \<open>
  The loop \<^verbatim>\<open>for (char c : in)\<close> with its accumulator \<^verbatim>\<open>out\<close>; the \<^verbatim>\<open>switch\<close> is the chain of
  equality tests, the default branch tests \<^verbatim>\<open>(unsigned char)c < 0x20\<close>.
\<close>

fun json_escape_loop :: "string \<Rightarrow> string \<Rightarrow> string" where
  "json_escape_loop out [] = out"
| "json_escape_loop out (c # cs) =
     json_escape_loop
       (if c = CHR 0x5C then out @ [CHR 0x5C, CHR 0x5C]
        else if c = CHR 0x22 then out @ [CHR 0x5C, CHR 0x22]
        else if c = CHR 0x0A then out @ [CHR 0x5C, CHR ''n'']
        else if c = CHR 0x0D then out @ [CHR 0x5C, CHR ''r'']
        else if c = CHR 0x09 then out @ [CHR 0x5C, CHR ''t'']
        else if (of_char c :: nat) < 0x20 then out @ ''?''
        else out @ [c])
       cs"

definition json_escape :: "string \<Rightarrow> string" where
  "json_escape inp = json_escape_loop [] inp"

text \<open>
  The escape table as the specification words it: five two-byte escapes, a question mark
  for every other byte below \<^verbatim>\<open>0x20\<close>, every other byte unchanged.
\<close>

definition escape_byte_spec :: "char \<Rightarrow> string" where
  "escape_byte_spec c =
     (if c = CHR 0x5C then [CHR 0x5C, CHR 0x5C]
      else if c = CHR 0x22 then [CHR 0x5C, CHR 0x22]
      else if c = CHR 0x0A then [CHR 0x5C, CHR ''n'']
      else if c = CHR 0x0D then [CHR 0x5C, CHR ''r'']
      else if c = CHR 0x09 then [CHR 0x5C, CHR ''t'']
      else if (of_char c :: nat) < 0x20 then ''?''
      else [c])"

subsection \<open>Scan payload (state.cpp, \<^verbatim>\<open>build_wifi_scan_payload\<close>)\<close>

definition MAX_NOTIFY_BYTES :: nat where
  "MAX_NOTIFY_BYTES = 200"

definition scan_payload_open :: string where
  \<open>scan_payload_open = ''{"op":"wifi_scan","ssids":[''\<close>

definition scan_payload_close :: string where
  "scan_payload_close = '']}''"

text \<open>
  The \<^verbatim>\<open>for\<close> loop over \<^verbatim>\<open>ssids\<close>: the state is \<^verbatim>\<open>payload\<close> and \<^verbatim>\<open>first\<close>; \<^verbatim>\<open>break\<close> returns the
  payload built so far.
\<close>

fun build_loop :: "string \<Rightarrow> bool \<Rightarrow> string list \<Rightarrow> string" where
  "build_loop payload first [] = payload"
| "build_loop payload first (ssid # rest) =
     (let entry = (if first then [] else '','') @ [CHR 0x22] @ json_escape ssid @ [CHR 0x22]
      in if length payload + length entry + 2 > MAX_NOTIFY_BYTES then payload
         else build_loop (payload @ entry) False rest)"

definition build_wifi_scan_payload :: "string list \<Rightarrow> string" where
  "build_wifi_scan_payload ssids =
     build_loop scan_payload_open True ssids @ scan_payload_close"

text \<open>
  The payload form of the specification, for a list of SSIDs that are all included whole:
  the quoted, escaped entries separated by commas between the opening and the closing.
\<close>

definition quoted :: "string \<Rightarrow> string" where
  "quoted ssid = [CHR 0x22] @ json_escape ssid @ [CHR 0x22]"

fun comma_sep :: "string list \<Rightarrow> string" where
  "comma_sep [] = []"
| "comma_sep [x] = x"
| "comma_sep (x # y # ys) = x @ '','' @ comma_sep (y # ys)"

definition scan_payload_of :: "string list \<Rightarrow> string" where
  "scan_payload_of ssids =
     scan_payload_open @ comma_sep (map quoted ssids) @ scan_payload_close"

text \<open>The entries appended by the loop, as one string.\<close>

fun entries :: "bool \<Rightarrow> string list \<Rightarrow> string" where
  "entries first [] = []"
| "entries first (s # rest) = (if first then [] else '','') @ quoted s @ entries False rest"

definition long_ssid :: "char \<Rightarrow> string" where
  "long_ssid c = replicate 100 c"

section \<open>The collaborators: NetworkManager and the C++ library\<close>

text \<open>
  What the program reads from NetworkManager, as data. A null pointer is \<open>None\<close>. An
  access point has its SSID bytes (\<^verbatim>\<open>GBytes*\<close>, possibly null) and its strength
  (\<^verbatim>\<open>guint8\<close>). A device has its interface name, whether it is a Wi-Fi device
  (\<^verbatim>\<open>NM_IS_DEVICE_WIFI\<close>), its access point array (possibly null, with possibly null
  entries), its active access point and its IPv4 configuration (possibly null) with the
  address array (possibly null) of address strings, each a C string.
\<close>

record access_point =
  ap_ssid :: "string option"
  ap_strength :: "8 word"

record nm_device =
  iface :: string
  is_wifi :: bool
  access_points :: "access_point option list option"
  active_access_point :: "access_point option"
  ip4_config :: "string list option option"

text \<open>
  The platform at the time of one call: what \<^verbatim>\<open>nm_client_new\<close> returns (null, or a client
  with its device array, possibly null), and what \<^verbatim>\<open>std::sort\<close> does with the comparator
  of \<^verbatim>\<open>scan_ssids\<close>. The C++ standard fixes the result of \<^verbatim>\<open>std::sort\<close> only up to the order
  of elements that the comparator does not separate, so the sort is a parameter.
\<close>

record platform =
  nm_client_new :: "nm_device list option option"
  std_sort :: "(string \<times> int) list \<Rightarrow> (string \<times> int) list"

text \<open>What the standard requires of \<^verbatim>\<open>std::sort\<close> with the comparator \<^verbatim>\<open>a.second > b.second\<close>:
  a permutation in which no element is followed by one with a greater second component.\<close>

definition std_sort_ok :: "((string \<times> int) list \<Rightarrow> (string \<times> int) list) \<Rightarrow> bool" where
  "std_sort_ok srt \<longleftrightarrow>
     (\<forall>xs. mset (srt xs) = mset xs \<and> sorted_wrt (\<lambda>a b. \<not> snd b > snd a) (srt xs))"

text \<open>One such sort, stable insertion sort by descending strength.\<close>

definition insertion_sort_desc :: "(string \<times> int) list \<Rightarrow> (string \<times> int) list" where
  "insertion_sort_desc xs = sort_key (\<lambda>kv. - snd kv) xs"

section \<open>Program state\<close>

text \<open>
  The callbacks a characteristic is exported with are function pointers; the program has
  four of them.
\<close>

datatype read_callback = On_read_state | On_read_device_info
datatype notify_callback = On_state_notify
datatype write_callback = On_write_command

text \<open>\<^verbatim>\<open>CharContext\<close> (characteristic.cpp). \<open>system_bus\<close> tells whether the connection
  pointer is non-null; \<open>value_ay\<close> is the cached Value, null until set.\<close>

record char_context =
  uuid :: string
  object_path :: string
  service_path :: string
  flags :: "string list"
  read_cb :: "read_callback option"
  notify_cb :: "notify_callback option"
  write_cb :: "write_callback option"
  system_bus :: bool
  notifying :: bool
  value_ay :: "string option"

text \<open>
  What the program does to the outside: a \<^verbatim>\<open>PropertiesChanged\<close> signal for the Value of the
  characteristic at a path (the carrier of a notification), and the calls into
  NetworkManager that create a client, request a scan, or add and activate a connection
  (connection id, SSID bytes, passphrase). Log lines are not modelled.
\<close>

datatype effect =
    PropertiesChanged string string
  | NmClientNew
  | NmRequestScan
  | NmAddAndActivate string string string

text \<open>
  The globals: \<^verbatim>\<open>g_state\<close> (state.cpp), \<^verbatim>\<open>g_chars\<close> (characteristic.cpp), \<^verbatim>\<open>g_scan_busy\<close>
  (scan.cpp), and the trace of effects so far.
\<close>

record prov_state =
  g_state :: string
  g_chars :: "string \<rightharpoonup> char_context"
  g_scan_busy :: bool
  effects :: "effect list"

definition perform :: "effect \<Rightarrow> prov_state \<Rightarrow> prov_state" where
  "perform e st = st\<lparr>effects := effects st @ [e]\<rparr>"

text \<open>The notifications in a trace: the values signalled for one path, in order.\<close>

fun notifications_on :: "string \<Rightarrow> effect list \<Rightarrow> string list" where
  "notifications_on path [] = []"
| "notifications_on path (PropertiesChanged p v # es) =
     (if p = path then v # notifications_on path es else notifications_on path es)"
| "notifications_on path (_ # es) = notifications_on path es"

definition UUID_DEVICEINFO :: string where
  "UUID_DEVICEINFO = ''9a7d0000-7c2a-4f8e-9b32-9b3e6d4a0002''"

definition UUID_STATE :: string where
  "UUID_STATE = ''9a7d0000-7c2a-4f8e-9b32-9b3e6d4a0003''"

definition UUID_COMMAND :: string where
  "UUID_COMMAND = ''9a7d0000-7c2a-4f8e-9b32-9b3e6d4a0004''"

definition SERVICE_PATH :: string where
  "SERVICE_PATH = ''/org/bluez/provision/service0''"

definition CHR_DEVINFO :: string where
  "CHR_DEVINFO = ''/org/bluez/provision/char0''"

definition CHR_STATE :: string where
  "CHR_STATE = ''/org/bluez/provision/char1''"

definition CHR_COMMAND :: string where
  "CHR_COMMAND = ''/org/bluez/provision/char2''"

text \<open>The notifications sent on the State characteristic so far.\<close>

definition state_notifications :: "prov_state \<Rightarrow> string list" where
  "state_notifications st = notifications_on CHR_STATE (effects st)"

section \<open>Characteristic base (characteristic.cpp)\<close>

text \<open>
  \<^verbatim>\<open>emit_value_changed\<close>: nothing without a bus; a null cache is replaced by the empty array;
  then the signal is emitted for the context's path. The later null and type checks of the
  source are on values that \<^verbatim>\<open>g_variant_builder_end\<close> has just built and never fail.
\<close>

definition emit_value_changed :: "char_context \<Rightarrow> char_context \<times> effect list" where
  "emit_value_changed ctx =
     (if \<not> system_bus ctx then (ctx, [])
      else (case value_ay ctx of
              None \<Rightarrow> (ctx\<lparr>value_ay := Some []\<rparr>, [PropertiesChanged (object_path ctx) []])
            | Some v \<Rightarrow> (ctx, [PropertiesChanged (object_path ctx) v])))"

text \<open>
  \<^verbatim>\<open>notify_characteristic_value\<close>: no-op when the path is not registered, when the
  characteristic is not notifying, or when the value is null; else the cache is replaced
  and the change is emitted. The context is mutated in place, so it is stored back.
\<close>

definition notify_characteristic_value ::
  "string \<Rightarrow> string option \<Rightarrow> prov_state \<Rightarrow> prov_state" where
  "notify_characteristic_value path val st =
     (case g_chars st path of
        None \<Rightarrow> st
      | Some ctx \<Rightarrow>
          if \<not> notifying ctx then st
          else (case val of
                  None \<Rightarrow> st
                | Some v \<Rightarrow>
                    (let (ctx', es) = emit_value_changed (ctx\<lparr>value_ay := Some v\<rparr>)
                     in st\<lparr>g_chars := (g_chars st)(path \<mapsto> ctx'),
                           effects := effects st @ es\<rparr>)))"

section \<open>Wi-Fi scan (scan.cpp)\<close>

text \<open>
  \<^verbatim>\<open>ScanBusyGuard\<close>: the constructor is one compare-and-swap on \<^verbatim>\<open>g_scan_busy\<close> from false to
  true and records whether it succeeded; the destructor, which runs on every return of
  the enclosing function, stores false when the guard had acquired the flag.
\<close>

definition ScanBusyGuard_acquire :: "prov_state \<Rightarrow> bool \<times> prov_state" where
  "ScanBusyGuard_acquire st =
     (if g_scan_busy st then (False, st) else (True, st\<lparr>g_scan_busy := True\<rparr>))"

definition ScanBusyGuard_release :: "bool \<Rightarrow> prov_state \<Rightarrow> prov_state" where
  "ScanBusyGuard_release acquired st =
     (if acquired then st\<lparr>g_scan_busy := False\<rparr> else st)"

definition ssid_to_string :: "string option \<Rightarrow> string" where
  "ssid_to_string ssid_bytes =
     (case ssid_bytes of
        None \<Rightarrow> []
      | Some data \<Rightarrow> if length data = 0 then [] else data)"

text \<open>
  \<^verbatim>\<open>std::map<std::string, int>\<close> as the list of its entries in key order, which is the order
  of iteration. Keys compare as byte strings, lexicographically.
\<close>

fun map_assign :: "string \<Rightarrow> int \<Rightarrow> (string \<times> int) list \<Rightarrow> (string \<times> int) list" where
  "map_assign k v [] = [(k, v)]"
| "map_assign k v ((k', v') # m) =
     (if k = k' then (k, v) # m
      else if k < k' then (k, v) # (k', v') # m
      else (k', v') # map_assign k v m)"

text \<open>The loop over the access points that fills \<^verbatim>\<open>best_strength\<close>.\<close>

fun collect_best ::
  "access_point option list \<Rightarrow> (string \<times> int) list \<Rightarrow> (string \<times> int) list" where
  "collect_best [] best_strength = best_strength"
| "collect_best (None # aps) best_strength = collect_best aps best_strength"
| "collect_best (Some ap # aps) best_strength =
     (let ssid = ssid_to_string (ap_ssid ap) in
      if ssid = [] then collect_best aps best_strength
      else
        (let strength = uint (ap_strength ap) in
         case map_of best_strength ssid of
           None \<Rightarrow> collect_best aps (map_assign ssid strength best_strength)
         | Some cur \<Rightarrow>
             if strength > cur then collect_best aps (map_assign ssid strength best_strength)
             else collect_best aps best_strength))"

text \<open>The first Wi-Fi device of the client's device array, null when there is none.\<close>

definition first_wifi_device :: "nm_device list option \<Rightarrow> nm_device option" where
  "first_wifi_device devs =
     (case devs of None \<Rightarrow> None | Some ds \<Rightarrow> find is_wifi ds)"

text \<open>
  The body of \<^verbatim>\<open>scan_ssids\<close> after the guard is acquired. A failed scan request is only
  logged, and the wait of 700 ms has no place in the model.
\<close>

definition scan_body :: "platform \<Rightarrow> prov_state \<Rightarrow> string list \<times> prov_state" where
  "scan_body env st =
     (let st1 = perform NmClientNew st in
      case nm_client_new env of
        None \<Rightarrow> ([], st1)
      | Some devs \<Rightarrow>
          (case first_wifi_device devs of
             None \<Rightarrow> ([], st1)
           | Some wifi \<Rightarrow>
               (let st2 = perform NmRequestScan st1 in
                case access_points wifi of
                  None \<Rightarrow> ([], st2)
                | Some aps \<Rightarrow>
                    (let best_strength = collect_best aps [];
                         sorted = std_sort env best_strength
                     in (map fst sorted, st2)))))"

definition scan_ssids :: "platform \<Rightarrow> prov_state \<Rightarrow> string list \<times> prov_state" where
  "scan_ssids env st =
     (let (acquired, st1) = ScanBusyGuard_acquire st;
          (result, st2) = (if \<not> acquired then ([], st1) else scan_body env st1)
      in (result, ScanBusyGuard_release acquired st2))"

section \<open>Wi-Fi connect (connect.cpp)\<close>

datatype ConnectResult = REQUESTED | FAILED

text \<open>
  \<^verbatim>\<open>connect\<close>: fails without a client or without a Wi-Fi device; else it submits the profile
  and reports \<^verbatim>\<open>REQUESTED\<close>. The connection id and the passphrase are passed as C strings.
\<close>

definition connect :: "platform \<Rightarrow> string \<Rightarrow> string \<Rightarrow> prov_state \<Rightarrow> ConnectResult \<times> prov_state" where
  "connect env ssid psk st =
     (let st1 = perform NmClientNew st in
      case nm_client_new env of
        None \<Rightarrow> (FAILED, st1)
      | Some devs \<Rightarrow>
          (case first_wifi_device devs of
             None \<Rightarrow> (FAILED, st1)
           | Some wifi \<Rightarrow>
               (REQUESTED,
                perform (NmAddAndActivate (c_str ssid) ssid (c_str psk)) st1)))"

section \<open>State characteristic (state.cpp)\<close>

definition notify_state :: "prov_state \<Rightarrow> prov_state" where
  "notify_state st =
     notify_characteristic_value CHR_STATE (Some (make_state_payload (g_state st))) st"

definition on_read_state :: "prov_state \<Rightarrow> string" where
  "on_read_state st = make_state_payload (g_state st)"

definition handle_wifi_scan_request :: "platform \<Rightarrow> prov_state \<Rightarrow> prov_state" where
  "handle_wifi_scan_request env st =
     (let st1 = notify_state (st\<lparr>g_state := ''SCANNING''\<rparr>);
          (ssids, st2) = scan_ssids env st1;
          payload = build_wifi_scan_payload ssids;
          val = make_ay_from_string (c_str payload);
          st3 = notify_characteristic_value CHR_STATE (Some val) st2
      in notify_state (st3\<lparr>g_state := ''SCAN_COMPLETE''\<rparr>))"

definition connected_payload :: "string \<Rightarrow> string \<Rightarrow> string" where
  \<open>connected_payload ssid ip =
     ''{"state":"CONNECTED","ssid":"'' @ json_escape ssid @ ''","ip":"'' @ json_escape ip @ ''"}''\<close>

definition notify_state_connected :: "string \<Rightarrow> string \<Rightarrow> prov_state \<Rightarrow> prov_state" where
  "notify_state_connected ssid ip st =
     (let st1 = st\<lparr>g_state := ''CONNECTED''\<rparr>;
          payload = connected_payload ssid ip;
          val = make_ay_from_string (c_str payload)
      in notify_characteristic_value CHR_STATE (Some val) st1)"

definition handle_wifi_connect_request ::
  "platform \<Rightarrow> string \<Rightarrow> string \<Rightarrow> prov_state \<Rightarrow> prov_state" where
  "handle_wifi_connect_request env ssid psk st =
     (let st1 = notify_state (st\<lparr>g_state := ''CONNECTING''\<rparr>);
          (result, st2) = connect env ssid psk st1
      in if result \<noteq> REQUESTED then notify_state (st2\<lparr>g_state := ''UNCONFIGURED''\<rparr>)
         else st2)"

section \<open>IPv4-ready dispatcher (\<^verbatim>\<open>wifi_state_dispatcher.cpp\<close>)\<close>

text \<open>\<^verbatim>\<open>nm_client_get_device_by_iface\<close>: the device of the client with that interface name.\<close>

definition device_by_iface :: "nm_device list option \<Rightarrow> string \<Rightarrow> nm_device option" where
  "device_by_iface devs name =
     (case devs of None \<Rightarrow> None | Some ds \<Rightarrow> find (\<lambda>d. iface d = name) ds)"

definition on_ipv4_ready :: "platform \<Rightarrow> prov_state \<Rightarrow> prov_state" where
  "on_ipv4_ready env st =
     (let st1 = perform NmClientNew st in
      case nm_client_new env of
        None \<Rightarrow> st1
      | Some devs \<Rightarrow>
          (case device_by_iface devs ''wlan0'' of
             None \<Rightarrow> st1
           | Some dev \<Rightarrow>
               if \<not> is_wifi dev then st1
               else
                 (let ssid =
                        (case active_access_point dev of
                           None \<Rightarrow> ''unknown''
                         | Some ap \<Rightarrow>
                             (case ap_ssid ap of None \<Rightarrow> ''unknown'' | Some data \<Rightarrow> data));
                      ip =
                        (case ip4_config dev of
                           None \<Rightarrow> []
                         | Some None \<Rightarrow> []
                         | Some (Some []) \<Rightarrow> []
                         | Some (Some (addr # _)) \<Rightarrow> c_str addr)
                  in if ip \<noteq> [] then notify_state_connected ssid ip st1 else st1)))"

text \<open>
  \<^verbatim>\<open>notify_ipv4_ready\<close> hands \<^verbatim>\<open>on_ipv4_ready\<close> to \<^verbatim>\<open>g_main_context_invoke\<close>. Called from a
  handler that runs on the main loop, as \<^verbatim>\<open>on_state_notify\<close> is, the function is run at
  once; called from the netlink thread it is run by the main loop as an event of its own.
\<close>

definition notify_ipv4_ready :: "platform \<Rightarrow> prov_state \<Rightarrow> prov_state" where
  "notify_ipv4_ready env st = on_ipv4_ready env st"

definition on_state_notify :: "platform \<Rightarrow> bool \<Rightarrow> prov_state \<Rightarrow> prov_state" where
  "on_state_notify env enabled st = (if \<not> enabled then st else notify_ipv4_ready env st)"

section \<open>Command characteristic (command.cpp)\<close>

text \<open>
  \<^verbatim>\<open>std::string::find\<close>: the least position at or after \<open>pos\<close> where the needle starts,
  \<open>None\<close> for \<^verbatim>\<open>npos\<close>; \<^verbatim>\<open>substr\<close> with a position inside the string.
\<close>

fun find_first :: "string \<Rightarrow> string \<Rightarrow> nat option" where
  "find_first needle [] = (if needle = [] then Some 0 else None)"
| "find_first needle (c # cs) =
     (if prefix needle (c # cs) then Some 0 else map_option Suc (find_first needle cs))"

definition str_find :: "string \<Rightarrow> string \<Rightarrow> nat \<Rightarrow> nat option" where
  "str_find s needle pos =
     (if pos > length s then None
      else map_option (\<lambda>i. pos + i) (find_first needle (drop pos s)))"

definition substr :: "string \<Rightarrow> nat \<Rightarrow> nat \<Rightarrow> string" where
  "substr s pos n = take n (drop pos s)"

definition ay_to_string :: "string \<Rightarrow> string" where
  "ay_to_string val = (if length val = 0 then [] else val)"

definition json_get_string :: "string \<Rightarrow> string \<Rightarrow> string" where
  "json_get_string payload key =
     (let needle = [CHR 0x22] @ key @ [CHR 0x22] in
      case str_find payload needle 0 of
        None \<Rightarrow> []
      | Some k \<Rightarrow>
          (case str_find payload '':'' (k + length needle) of
             None \<Rightarrow> []
           | Some colon \<Rightarrow>
               (case str_find payload [CHR 0x22] (colon + 1) of
                  None \<Rightarrow> []
                | Some q1 \<Rightarrow>
                    (case str_find payload [CHR 0x22] (q1 + 1) of
                       None \<Rightarrow> []
                     | Some q2 \<Rightarrow>
                         if q2 \<le> q1 + 1 then []
                         else substr payload (q1 + 1) (q2 - (q1 + 1))))))"

text \<open>The operation a payload resolves to: the \<^verbatim>\<open>op\<close> field, and the legacy \<^verbatim>\<open>cmd\<close> field
  when \<^verbatim>\<open>op\<close> is empty (lines 106 to 115 of \<^verbatim>\<open>on_write_command\<close>).\<close>

definition resolve_op :: "string \<Rightarrow> string" where
  "resolve_op payload =
     (let op = json_get_string payload ''op'' in
      if op = [] then
        (let cmd = json_get_string payload ''cmd'' in
         if cmd = ''wifi.scan'' then ''wifi_scan''
         else if cmd = ''wifi.connect'' then ''wifi_connect''
         else op)
      else op)"

definition on_write_command :: "platform \<Rightarrow> string \<Rightarrow> prov_state \<Rightarrow> prov_state" where
  "on_write_command env val st =
     (let payload = ay_to_string val in
      if payload = [] then st
      else
        (let op = resolve_op payload in
         if op = ''wifi_scan'' then handle_wifi_scan_request env st
         else if op = ''wifi_connect'' then
           (let ssid = json_get_string payload ''ssid'';
                psk = json_get_string payload ''psk''
            in if ssid = [] then st
               else handle_wifi_connect_request env ssid psk st)
         else st))"

section \<open>Method calls on a characteristic (characteristic.cpp, \<^verbatim>\<open>on_method_call\<close>)\<close>

definition DEVICEINFO_JSON :: string where
  \<open>DEVICEINFO_JSON =
     ''{"Company":"PiDevelop.com","Developer":"james@pidevelop.com","project_name":"Provision BLE"}''\<close>

definition on_read_device_info :: string where
  "on_read_device_info = make_ay_from_string DEVICEINFO_JSON"

datatype method_call = ReadValue | WriteValue string | StartNotify | StopNotify | OtherMethod string

datatype reply = ReturnValue string | ReturnEmpty | ReturnError string string

fun call_read_cb :: "read_callback \<Rightarrow> prov_state \<Rightarrow> string" where
  "call_read_cb On_read_state st = on_read_state st"
| "call_read_cb On_read_device_info st = on_read_device_info"

fun call_notify_cb :: "notify_callback \<Rightarrow> platform \<Rightarrow> bool \<Rightarrow> prov_state \<Rightarrow> prov_state" where
  "call_notify_cb On_state_notify env enabled st = on_state_notify env enabled st"

fun call_write_cb :: "write_callback \<Rightarrow> platform \<Rightarrow> string \<Rightarrow> prov_state \<Rightarrow> prov_state" where
  "call_write_cb On_write_command env val st = on_write_command env val st"

definition set_notifying :: "string \<Rightarrow> bool \<Rightarrow> prov_state \<Rightarrow> prov_state" where
  "set_notifying path b st =
     (case g_chars st path of
        None \<Rightarrow> st
      | Some ctx \<Rightarrow> st\<lparr>g_chars := (g_chars st)(path \<mapsto> ctx\<lparr>notifying := b\<rparr>)\<rparr>)"

text \<open>
  A method call that the bus delivers to the characteristic registered at \<open>path\<close>. The bus
  answers by itself for a path with no object; the handler runs with the context of the
  object as its user data.
\<close>

definition on_method_call ::
  "platform \<Rightarrow> string \<Rightarrow> method_call \<Rightarrow> prov_state \<Rightarrow> reply \<times> prov_state" where
  "on_method_call env path m st =
     (case g_chars st path of
        None \<Rightarrow> (ReturnError ''org.freedesktop.DBus.Error.UnknownObject'' [], st)
      | Some ctx \<Rightarrow>
          (case m of
             ReadValue \<Rightarrow>
               (case read_cb ctx of
                  None \<Rightarrow> (ReturnError ''org.bluez.Error.Failed'' ''Read not supported'', st)
                | Some cb \<Rightarrow> (ReturnValue (call_read_cb cb st), st))
           | WriteValue val \<Rightarrow>
               (case write_cb ctx of
                  None \<Rightarrow> (ReturnError ''org.bluez.Error.Failed'' ''Write not supported'', st)
                | Some cb \<Rightarrow> (ReturnEmpty, call_write_cb cb env val st))
           | StartNotify \<Rightarrow>
               (let st1 = set_notifying path True st in
                case notify_cb ctx of
                  None \<Rightarrow> (ReturnEmpty, st1)
                | Some cb \<Rightarrow> (ReturnEmpty, call_notify_cb cb env True st1))
           | StopNotify \<Rightarrow>
               (let st1 = set_notifying path False st in
                case notify_cb ctx of
                  None \<Rightarrow> (ReturnEmpty, st1)
                | Some cb \<Rightarrow> (ReturnEmpty, call_notify_cb cb env False st1))
           | OtherMethod name \<Rightarrow>
               (ReturnError ''org.freedesktop.DBus.Error.UnknownMethod'' ''Unknown method'', st)))"

section \<open>Export and start-up\<close>

text \<open>
  \<^verbatim>\<open>export_characteristic\<close>: the Value cache is seeded from the read callback, the object is
  registered on the bus (\<open>registered\<close> tells whether that succeeded; it fails without a
  bus), and the context enters \<^verbatim>\<open>g_chars\<close>. A failure is the exception of the source.
\<close>

datatype error = RuntimeError string

definition export_characteristic ::
  "bool \<Rightarrow> string \<Rightarrow> string \<Rightarrow> string \<Rightarrow> string list \<Rightarrow> read_callback option \<Rightarrow>
   notify_callback option \<Rightarrow> write_callback option \<Rightarrow> bool \<Rightarrow> prov_state \<Rightarrow> error + prov_state" where
  "export_characteristic bus u path spath fl rcb ncb wcb registered st =
     (let ctx = \<lparr>uuid = u, object_path = path, service_path = spath, flags = fl,
                 read_cb = rcb, notify_cb = ncb, write_cb = wcb, system_bus = bus,
                 notifying = False,
                 value_ay = (case rcb of None \<Rightarrow> None | Some cb \<Rightarrow> Some (call_read_cb cb st))\<rparr>
      in if \<not> bus \<or> \<not> registered then Inl (RuntimeError ''Failed to export characteristic: '')
         else Inr (st\<lparr>g_chars := (g_chars st)(path \<mapsto> ctx)\<rparr>))"

definition export_device_info :: "bool \<Rightarrow> bool \<Rightarrow> prov_state \<Rightarrow> error + prov_state" where
  "export_device_info bus registered st =
     export_characteristic bus UUID_DEVICEINFO CHR_DEVINFO SERVICE_PATH [''read'']
       (Some On_read_device_info) None None registered st"

definition export_state :: "bool \<Rightarrow> bool \<Rightarrow> prov_state \<Rightarrow> error + prov_state" where
  "export_state bus registered st =
     export_characteristic bus UUID_STATE CHR_STATE SERVICE_PATH [''read'', ''notify'']
       (Some On_read_state) (Some On_state_notify) None registered st"

definition export_command :: "bool \<Rightarrow> bool \<Rightarrow> prov_state \<Rightarrow> error + prov_state" where
  "export_command bus registered st =
     export_characteristic bus UUID_COMMAND CHR_COMMAND SERVICE_PATH [''write'']
       None None (Some On_write_command) registered st"

text \<open>The globals as the program starts, and the three exports of \<^verbatim>\<open>main\<close> in their order.\<close>

definition initial_state :: prov_state where
  "initial_state =
     \<lparr>g_state = ''UNCONFIGURED'', g_chars = Map.empty, g_scan_busy = False, effects = []\<rparr>"

definition startup :: "bool \<Rightarrow> bool \<Rightarrow> bool \<Rightarrow> error + prov_state" where
  "startup r0 r1 r2 =
     (case export_device_info True r0 initial_state of
        Inl e \<Rightarrow> Inl e
      | Inr st0 \<Rightarrow>
          (case export_state True r1 st0 of
             Inl e \<Rightarrow> Inl e
           | Inr st1 \<Rightarrow> export_command True r2 st1))"

text \<open>
  The states the running daemon can be in: after a successful start-up the main loop
  serves, one at a time, method calls on the exported characteristics and IPv4-ready
  events posted by the netlink thread, each against the platform of that moment.
\<close>

inductive reachable :: "prov_state \<Rightarrow> bool" where
  started: "startup r0 r1 r2 = Inr st \<Longrightarrow> reachable st"
| method_call: "reachable st \<Longrightarrow> reachable (snd (on_method_call env path m st))"
| ipv4_ready: "reachable st \<Longrightarrow> reachable (on_ipv4_ready env st)"

section \<open>Notions used to state the properties\<close>

text \<open>
  The State characteristic is exported as \<^verbatim>\<open>export_state\<close> does it: registered at its path,
  on a bus, with its read and notify callbacks. It is notifying between a \<^verbatim>\<open>StartNotify\<close> and
  the next \<^verbatim>\<open>StopNotify\<close>.
\<close>

definition state_exported :: "prov_state \<Rightarrow> bool" where
  "state_exported st =
     (case g_chars st CHR_STATE of
        None \<Rightarrow> False
      | Some ctx \<Rightarrow>
          object_path ctx = CHR_STATE \<and> system_bus ctx \<and>
          read_cb ctx = Some On_read_state \<and> notify_cb ctx = Some On_state_notify)"

definition state_notifying :: "prov_state \<Rightarrow> bool" where
  "state_notifying st =
     (case g_chars st CHR_STATE of None \<Rightarrow> False | Some ctx \<Rightarrow> notifying ctx)"

text \<open>
  What \<^verbatim>\<open>on_ipv4_ready\<close> reads from NetworkManager: nothing without a client or without a
  Wi-Fi device named \<^verbatim>\<open>wlan0\<close>; else the SSID of the active access point, \<^verbatim>\<open>unknown\<close> by
  default, and the first IPv4 address, empty when there is none.
\<close>

definition wlan0_ssid_ip :: "platform \<Rightarrow> (string \<times> string) option" where
  "wlan0_ssid_ip env =
     (case nm_client_new env of
        None \<Rightarrow> None
      | Some devs \<Rightarrow>
          (case device_by_iface devs ''wlan0'' of
             None \<Rightarrow> None
           | Some dev \<Rightarrow>
               if \<not> is_wifi dev then None
               else Some
                 ((case active_access_point dev of
                     None \<Rightarrow> ''unknown''
                   | Some ap \<Rightarrow> (case ap_ssid ap of None \<Rightarrow> ''unknown'' | Some data \<Rightarrow> data)),
                  (case ip4_config dev of
                     None \<Rightarrow> []
                   | Some None \<Rightarrow> []
                   | Some (Some []) \<Rightarrow> []
                   | Some (Some (addr # _)) \<Rightarrow> c_str addr))))"

text \<open>The five state names of the specification.\<close>

definition state_names :: "string list" where
  "state_names = [''UNCONFIGURED'', ''SCANNING'', ''SCAN_COMPLETE'', ''CONNECTING'', ''CONNECTED'']"

text \<open>
  The observations of a scan, as the specification speaks of them: the pairs of SSID and
  signal strength of the access points that are present and have a non-empty SSID; the
  strengths observed for one SSID; the strongest of them. \<open>scanned_aps\<close> is the access
  point array that \<^verbatim>\<open>scan_ssids\<close> reads on a platform, empty where the scan ends early.
\<close>

fun observations :: "access_point option list \<Rightarrow> (string \<times> int) list" where
  "observations [] = []"
| "observations (None # aps) = observations aps"
| "observations (Some ap # aps) =
     (case ap_ssid ap of
        None \<Rightarrow> observations aps
      | Some data \<Rightarrow>
          if data = [] then observations aps
          else (data, uint (ap_strength ap)) # observations aps)"

definition strengths :: "(string \<times> int) list \<Rightarrow> string \<Rightarrow> int list" where
  "strengths obs s = map snd (filter (\<lambda>p. fst p = s) obs)"

definition strongest :: "(string \<times> int) list \<Rightarrow> string \<Rightarrow> int" where
  "strongest obs s = Max (set (strengths obs s))"

definition scanned_aps :: "platform \<Rightarrow> access_point option list" where
  "scanned_aps env =
     (case nm_client_new env of
        None \<Rightarrow> []
      | Some devs \<Rightarrow>
          (case first_wifi_device devs of
             None \<Rightarrow> []
           | Some wifi \<Rightarrow> (case access_points wifi of None \<Rightarrow> [] | Some aps \<Rightarrow> aps)))"

text \<open>The value kept for one key while the strengths seen for it come in, one by one.\<close>

fun keep_best :: "int option \<Rightarrow> int list \<Rightarrow> int option" where
  "keep_best cur [] = cur"
| "keep_best None (v # vs) = keep_best (Some v) vs"
| "keep_best (Some c) (v # vs) = keep_best (Some (if v > c then v else c)) vs"

section \<open>Concrete platforms and states\<close>

text \<open>
  Scenario A of the specification: three access points seen by \<^verbatim>\<open>wlan0\<close>, which is
  associated with \<^verbatim>\<open>HomeNet\<close> and has the address \<^verbatim>\<open>192.168.1.20\<close>; a platform without
  NetworkManager; and one whose \<^verbatim>\<open>wlan0\<close> has no address yet.
\<close>

definition example_aps :: "access_point option list" where
  "example_aps =
     [Some \<lparr>ap_ssid = Some ''HomeNet'', ap_strength = 80\<rparr>,
      Some \<lparr>ap_ssid = Some ''HomeNet'', ap_strength = 60\<rparr>,
      Some \<lparr>ap_ssid = Some ''Cafe'', ap_strength = 40\<rparr>]"

definition example_wlan0 :: nm_device where
  "example_wlan0 =
     \<lparr>iface = ''wlan0'', is_wifi = True, access_points = Some example_aps,
      active_access_point = Some \<lparr>ap_ssid = Some ''HomeNet'', ap_strength = 80\<rparr>,
      ip4_config = Some (Some [''192.168.1.20''])\<rparr>"

definition example_env :: platform where
  "example_env = \<lparr>nm_client_new = Some (Some [example_wlan0]), std_sort = insertion_sort_desc\<rparr>"

definition offline_env :: platform where
  "offline_env = \<lparr>nm_client_new = None, std_sort = insertion_sort_desc\<rparr>"

definition unaddressed_env :: platform where
  "unaddressed_env =
     \<lparr>nm_client_new = Some (Some [example_wlan0\<lparr>ip4_config := None\<rparr>]),
      std_sort = insertion_sort_desc\<rparr>"

text \<open>The state in which the main loop starts, and the state after a \<^verbatim>\<open>StartNotify\<close> on State
  while \<^verbatim>\<open>wlan0\<close> has no address.\<close>

definition state_context :: "bool \<Rightarrow> char_context" where
  \<open>state_context n =
     \<lparr>uuid = UUID_STATE, object_path = CHR_STATE, service_path = SERVICE_PATH,
      flags = [''read'', ''notify''], read_cb = Some On_read_state,
      notify_cb = Some On_state_notify, write_cb = None, system_bus = True,
      notifying = n, value_ay = Some ''{"state":"UNCONFIGURED"}''\<rparr>\<close>

definition devinfo_context :: char_context where
  "devinfo_context =
     \<lparr>uuid = UUID_DEVICEINFO, object_path = CHR_DEVINFO, service_path = SERVICE_PATH,
      flags = [''read''], read_cb = Some On_read_device_info,
      notify_cb = None, write_cb = None, system_bus = True,
      notifying = False, value_ay = Some DEVICEINFO_JSON\<rparr>"

definition command_context :: char_context where
  "command_context =
     \<lparr>uuid = UUID_COMMAND, object_path = CHR_COMMAND, service_path = SERVICE_PATH,
      flags = [''write''], read_cb = None,
      notify_cb = None, write_cb = Some On_write_command, system_bus = True,
      notifying = False, value_ay = None\<rparr>"

definition started_state :: prov_state where
  "started_state =
     \<lparr>g_state = ''UNCONFIGURED'',
      g_chars = [CHR_DEVINFO \<mapsto> devinfo_context, CHR_STATE \<mapsto> state_context False,
                 CHR_COMMAND \<mapsto> command_context],
      g_scan_busy = False, effects = []\<rparr>"

definition subscribed_state :: prov_state where
  "subscribed_state =
     \<lparr>g_state = ''UNCONFIGURED'',
      g_chars = [CHR_DEVINFO \<mapsto> devinfo_context, CHR_STATE \<mapsto> state_context True,
                 CHR_COMMAND \<mapsto> command_context],
      g_scan_busy = False, effects = [NmClientNew]\<rparr>"

section \<open>Properties of the payload builders\<close>

lemma json_escape_loop_acc:
  "json_escape_loop out cs = out @ concat (map escape_byte_spec cs)"
  by (induction cs arbitrary: out) (simp_all add: escape_byte_spec_def)

lemma escape_byte_spec_no_nul: "CHR 0x00 \<notin> set (escape_byte_spec c)"
  by (auto simp: escape_byte_spec_def)

lemma json_escape_concat: "json_escape inp = concat (map escape_byte_spec inp)"
  by (simp add: json_escape_def json_escape_loop_acc)

lemma json_escape_no_nul: "CHR 0x00 \<notin> set (json_escape inp)"
  using escape_byte_spec_no_nul by (auto simp: json_escape_concat)

lemma json_escape_append: "json_escape (xs @ ys) = json_escape xs @ json_escape ys"
  by (simp add: json_escape_concat)

text \<open>
  C7. For every byte sequence, \<^verbatim>\<open>json_escape\<close> maps backslash to two backslashes, the
  double quote to backslash and quote, newline, carriage return and tab to backslash and
  \<^verbatim>\<open>n\<close>, \<^verbatim>\<open>r\<close>, \<^verbatim>\<open>t\<close>, every other byte below \<^verbatim>\<open>0x20\<close> to a question mark, and leaves every other
  byte unchanged: the output is the concatenation, in input order, of the images of the
  input bytes under that table.
\<close>

theorem json_escape_bytewise:
  "json_escape inp = concat (map escape_byte_spec inp)
   \<and> escape_byte_spec (CHR 0x5C) = [CHR 0x5C, CHR 0x5C]
   \<and> escape_byte_spec (CHR 0x22) = [CHR 0x5C, CHR 0x22]
   \<and> escape_byte_spec (CHR 0x0A) = [CHR 0x5C, CHR ''n'']
   \<and> escape_byte_spec (CHR 0x0D) = [CHR 0x5C, CHR ''r'']
   \<and> escape_byte_spec (CHR 0x09) = [CHR 0x5C, CHR ''t'']
   \<and> json_escape [c] =
       (if c \<in> {CHR 0x5C, CHR 0x22, CHR 0x0A, CHR 0x0D, CHR 0x09}
        then [CHR 0x5C, (if c = CHR 0x0A then CHR ''n'' else if c = CHR 0x0D then CHR ''r''
                         else if c = CHR 0x09 then CHR ''t'' else c)]
        else if (of_char c :: nat) < 0x20 then ''?'' else [c])"
  by (simp add: json_escape_concat escape_byte_spec_def)

lemma entries_False: "entries False xs = concat (map (\<lambda>s. '','' @ quoted s) xs)"
  by (induction xs) simp_all

lemma comma_sep_Cons:
  "comma_sep (map quoted (x # xs)) = quoted x @ concat (map (\<lambda>s. '','' @ quoted s) xs)"
  by (induction xs arbitrary: x) simp_all

lemma entries_True: "entries True xs = comma_sep (map quoted xs)"
proof (cases xs)
  case Nil
  then show ?thesis by simp
next
  case (Cons x rest)
  then show ?thesis using comma_sep_Cons [of x rest] by (simp add: entries_False)
qed

lemma entries_snoc:
  "entries first (xs @ [s]) =
     entries first xs @ (if first \<and> xs = [] then [] else '','') @ quoted s"
  by (induction xs arbitrary: first) simp_all

lemma entries_take_Suc_length:
  "k < length xs \<Longrightarrow> length (entries first (take k xs)) \<le> length (entries first (take (Suc k) xs))"
  by (simp add: take_Suc_conv_app_nth entries_snoc)

lemma entries_take_mono:
  "j \<le> k \<Longrightarrow> length (entries first (take j xs)) \<le> length (entries first (take k xs))"
proof (induction k)
  case 0
  then show ?case by simp
next
  case (Suc k)
  show ?case
  proof (cases "j = Suc k")
    case True
    then show ?thesis by simp
  next
    case False
    with Suc have le: "length (entries first (take j xs)) \<le> length (entries first (take k xs))"
      by simp
    show ?thesis
    proof (cases "k < length xs")
      case True
      from entries_take_Suc_length [OF this] le show ?thesis by (rule_tac order_trans)
    next
      case False
      then show ?thesis using le by simp
    qed
  qed
qed

lemma build_loop_stops:
  "\<exists>k\<le>length rest.
      build_loop payload first rest = payload @ entries first (take k rest)
    \<and> (k < length rest \<longrightarrow>
         MAX_NOTIFY_BYTES < length (payload @ entries first (take (Suc k) rest)) + 2)
    \<and> (0 < k \<longrightarrow> length (payload @ entries first (take k rest)) + 2 \<le> MAX_NOTIFY_BYTES)"
proof (induction rest arbitrary: payload first)
  case Nil
  then show ?case by simp
next
  case (Cons ssid rest)
  let ?entry = "(if first then [] else '','') @ quoted ssid"
  show ?case
  proof (cases "length payload + length ?entry + 2 > MAX_NOTIFY_BYTES")
    case True
    then have "build_loop payload first (ssid # rest) = payload"
      by (simp add: quoted_def Let_def)
    with True show ?thesis by (intro exI [of _ 0]) simp
  next
    case False
    then have step: "build_loop payload first (ssid # rest) = build_loop (payload @ ?entry) False rest"
      by (simp add: quoted_def Let_def)
    from Cons.IH [of "payload @ ?entry" False] obtain k where k: "k \<le> length rest"
      "build_loop (payload @ ?entry) False rest = (payload @ ?entry) @ entries False (take k rest)"
      "k < length rest \<longrightarrow>
         MAX_NOTIFY_BYTES < length ((payload @ ?entry) @ entries False (take (Suc k) rest)) + 2"
      "0 < k \<longrightarrow> length ((payload @ ?entry) @ entries False (take k rest)) + 2 \<le> MAX_NOTIFY_BYTES"
      by blast
    have fit: "length ((payload @ ?entry) @ entries False (take k rest)) + 2 \<le> MAX_NOTIFY_BYTES"
      using k(4) False by (cases k) auto
    show ?thesis
      using k(1,2,3) fit step by (intro exI [of _ "Suc k"]) simp
  qed
qed


lemma build_payload_max: "length (build_wifi_scan_payload ssids) \<le> MAX_NOTIFY_BYTES"
proof -
  obtain k where k: "build_loop scan_payload_open True ssids = scan_payload_open @ entries True (take k ssids)"
    "0 < k \<longrightarrow> length (scan_payload_open @ entries True (take k ssids)) + 2 \<le> MAX_NOTIFY_BYTES"
    using build_loop_stops [of ssids scan_payload_open True] by blast
  show ?thesis
  proof (cases k)
    case 0
    with k(1) show ?thesis
      by (simp add: build_wifi_scan_payload_def scan_payload_open_def scan_payload_close_def
          MAX_NOTIFY_BYTES_def)
  next
    case (Suc n)
    with k show ?thesis
      by (simp add: build_wifi_scan_payload_def scan_payload_close_def)
  qed
qed

lemma scan_payload_of_length:
  "length (scan_payload_of xs) = length (scan_payload_open @ entries True xs) + 2"
  by (simp add: scan_payload_of_def entries_True scan_payload_close_def)

lemma build_payload_is_prefix_payload:
  "\<exists>k\<le>length ssids. build_wifi_scan_payload ssids = scan_payload_of (take k ssids)"
proof -
  obtain k where "k \<le> length ssids"
    "build_loop scan_payload_open True ssids = scan_payload_open @ entries True (take k ssids)"
    using build_loop_stops [of ssids scan_payload_open True] by blast
  then show ?thesis
    by (auto simp: build_wifi_scan_payload_def scan_payload_of_def entries_True)
qed

text \<open>
  C3. For every list of SSIDs the payload built by \<^verbatim>\<open>build_wifi_scan_payload\<close> is at most 200
  bytes long, closing bracket and brace included. It is the payload of a prefix of the
  list, the first \<open>k\<close> entries in list order, each whole; every shorter prefix fits in
  200 bytes too, and when an entry is left out (\<open>k\<close> is below the length of the list) the
  payload with entry \<open>k + 1\<close> included would be longer than 200 bytes: appending stops
  before the first entry that does not fit.
\<close>

theorem build_wifi_scan_payload_capped:
  "length (build_wifi_scan_payload ssids) \<le> 200
   \<and> (\<exists>k\<le>length ssids.
         build_wifi_scan_payload ssids = scan_payload_of (take k ssids)
       \<and> (\<forall>j\<le>k. length (scan_payload_of (take j ssids)) \<le> 200)
       \<and> (k < length ssids \<longrightarrow> 200 < length (scan_payload_of (take (Suc k) ssids))))"
proof -
  obtain k where k: "k \<le> length ssids"
    "build_loop scan_payload_open True ssids = scan_payload_open @ entries True (take k ssids)"
    "k < length ssids \<longrightarrow>
       MAX_NOTIFY_BYTES < length (scan_payload_open @ entries True (take (Suc k) ssids)) + 2"
    using build_loop_stops [of ssids scan_payload_open True] by blast
  have eq: "build_wifi_scan_payload ssids = scan_payload_of (take k ssids)"
    using k(2) by (simp add: build_wifi_scan_payload_def scan_payload_of_def entries_True)
  have cap: "length (scan_payload_of (take k ssids)) \<le> 200"
    using build_payload_max [of ssids] eq by (simp add: MAX_NOTIFY_BYTES_def)
  have below: "length (scan_payload_of (take j ssids)) \<le> 200" if "j \<le> k" for j
    using entries_take_mono [OF that, of True ssids] cap
    by (simp add: scan_payload_of_length)
  have over: "k < length ssids \<longrightarrow> 200 < length (scan_payload_of (take (Suc k) ssids))"
    using k(3) by (simp add: scan_payload_of_length MAX_NOTIFY_BYTES_def)
  show ?thesis
    using k(1) eq below over build_payload_max [of ssids]
    by (auto simp: MAX_NOTIFY_BYTES_def)
qed

text \<open>
  Two SSIDs of 100 bytes and a short one: the first is included (131 bytes), the second
  would bring the payload to 234 bytes and ends the list, the third is not looked at.
\<close>

theorem build_wifi_scan_payload_capped_witness:
  "build_wifi_scan_payload [long_ssid CHR ''A'', long_ssid CHR ''B'', ''C'']
     = scan_payload_of [long_ssid CHR ''A'']
   \<and> length (build_wifi_scan_payload [long_ssid CHR ''A'', long_ssid CHR ''B'', ''C'']) = 131
   \<and> 200 < length (scan_payload_of [long_ssid CHR ''A'', long_ssid CHR ''B''])"
proof -
  let ?ssids = "[long_ssid CHR ''A'', long_ssid CHR ''B'', ''C'']"
  have l1: "length (scan_payload_of (take 1 ?ssids)) = 131"
    by (simp add: scan_payload_of_def quoted_def json_escape_concat long_ssid_def
        scan_payload_open_def scan_payload_close_def escape_byte_spec_def)
  have l2: "length (scan_payload_of (take 2 ?ssids)) = 234"
    by (simp add: scan_payload_of_def quoted_def json_escape_concat long_ssid_def
        scan_payload_open_def scan_payload_close_def escape_byte_spec_def)
  have l3: "length (scan_payload_of (take 3 ?ssids)) = 238"
    by (simp add: scan_payload_of_def quoted_def json_escape_concat long_ssid_def
        scan_payload_open_def scan_payload_close_def escape_byte_spec_def)
  from build_wifi_scan_payload_capped [of ?ssids] obtain k where k: "k \<le> length ?ssids"
    "build_wifi_scan_payload ?ssids = scan_payload_of (take k ?ssids)"
    "\<forall>j\<le>k. length (scan_payload_of (take j ?ssids)) \<le> 200"
    "k < length ?ssids \<longrightarrow> 200 < length (scan_payload_of (take (Suc k) ?ssids))"
    by blast
  have "k = 0 \<or> k = 1 \<or> k = 2 \<or> k = 3" using k(1) by (simp add: le_Suc_eq) arith
  then have "k = 1"
  proof (elim disjE)
    assume "k = 0" with k(4) l1 show ?thesis by simp
  next
    assume "k = 1" then show ?thesis .
  next
    assume "k = 2" with k(3) l2 show ?thesis by auto
  next
    assume "k = 3" with k(3) l3 show ?thesis by auto
  qed
  with k(2) l1 l2 show ?thesis by (simp add: numeral_2_eq_2)
qed

section \<open>Notifications\<close>

lemma notifications_on_append:
  "notifications_on path (es @ fs) = notifications_on path es @ notifications_on path fs"
  by (induction path es rule: notifications_on.induct) simp_all

lemma state_notifications_perform:
  "state_notifications (perform e st) = state_notifications st @ notifications_on CHR_STATE [e]"
  by (simp add: state_notifications_def perform_def notifications_on_append)

lemma c_str_no_nul: "CHR 0x00 \<notin> set s \<Longrightarrow> c_str s = s"
  by (auto simp: c_str_def)

lemma make_ay_no_nul: "CHR 0x00 \<notin> set s \<Longrightarrow> make_ay_from_string (c_str s) = s"
  by (auto simp: c_str_def make_ay_from_string_def)

lemma make_state_payload_plain:
  "CHR 0x00 \<notin> set s \<Longrightarrow> make_state_payload s = state_payload_open @ s @ payload_close"
  by (simp add: make_state_payload_def make_ay_no_nul state_payload_open_def payload_close_def)

lemma connected_payload_no_nul: "CHR 0x00 \<notin> set (connected_payload ssid ip)"
  using json_escape_no_nul [of ssid] json_escape_no_nul [of ip]
  by (simp add: connected_payload_def)

text \<open>The effect of one call of \<^verbatim>\<open>notify_characteristic_value\<close> on the State path.\<close>

lemma notify_State_unsubscribed:
  "\<not> state_notifying st \<Longrightarrow> notify_characteristic_value CHR_STATE val st = st"
  by (simp add: notify_characteristic_value_def state_notifying_def split: option.splits)

lemma notify_State_g_state [simp]:
  "g_state (notify_characteristic_value path val st) = g_state st"
  by (simp add: notify_characteristic_value_def emit_value_changed_def Let_def
      split: option.splits prod.splits)

lemma notify_State_busy [simp]:
  "g_scan_busy (notify_characteristic_value path val st) = g_scan_busy st"
  by (simp add: notify_characteristic_value_def emit_value_changed_def Let_def
      split: option.splits prod.splits)

lemma notify_State_exported [simp]:
  "state_exported (notify_characteristic_value CHR_STATE val st) = state_exported st"
  by (auto simp: notify_characteristic_value_def emit_value_changed_def Let_def state_exported_def
      split: option.splits prod.splits)

lemma notify_State_notifying [simp]:
  "state_notifying (notify_characteristic_value CHR_STATE val st) = state_notifying st"
  by (auto simp: notify_characteristic_value_def emit_value_changed_def Let_def state_notifying_def
      split: option.splits prod.splits)

lemma notify_State_notifications:
  "state_exported st \<Longrightarrow>
   state_notifications (notify_characteristic_value CHR_STATE (Some v) st) =
     state_notifications st @ (if state_notifying st then [v] else [])"
  by (auto simp: notify_characteristic_value_def emit_value_changed_def Let_def state_exported_def
      state_notifying_def state_notifications_def notifications_on_append
      split: option.splits prod.splits)

lemma perform_fields [simp]:
  "g_state (perform e st) = g_state st"
  "g_chars (perform e st) = g_chars st"
  "g_scan_busy (perform e st) = g_scan_busy st"
  "effects (perform e st) = effects st @ [e]"
  by (simp_all add: perform_def)

lemma perform_exported [simp]: "state_exported (perform e st) = state_exported st"
  by (simp add: state_exported_def)

lemma perform_notifying [simp]: "state_notifying (perform e st) = state_notifying st"
  by (simp add: state_notifying_def)

lemma g_state_update_exported [simp]: "state_exported (st\<lparr>g_state := s\<rparr>) = state_exported st"
  by (simp add: state_exported_def)

lemma g_state_update_notifying [simp]: "state_notifying (st\<lparr>g_state := s\<rparr>) = state_notifying st"
  by (simp add: state_notifying_def)

lemma g_state_update_notifications [simp]:
  "state_notifications (st\<lparr>g_state := s\<rparr>) = state_notifications st"
  by (simp add: state_notifications_def)

lemma busy_update_exported [simp]: "state_exported (st\<lparr>g_scan_busy := b\<rparr>) = state_exported st"
  by (simp add: state_exported_def)

lemma busy_update_notifying [simp]: "state_notifying (st\<lparr>g_scan_busy := b\<rparr>) = state_notifying st"
  by (simp add: state_notifying_def)

lemma busy_update_notifications [simp]:
  "state_notifications (st\<lparr>g_scan_busy := b\<rparr>) = state_notifications st"
  by (simp add: state_notifications_def)

lemma notify_state_facts:
  "g_state (notify_state st) = g_state st"
  "g_scan_busy (notify_state st) = g_scan_busy st"
  "state_exported (notify_state st) = state_exported st"
  "state_notifying (notify_state st) = state_notifying st"
  by (simp_all add: notify_state_def)

lemma notify_state_notifications:
  "state_exported st \<Longrightarrow>
   state_notifications (notify_state st) =
     state_notifications st @ (if state_notifying st then [make_state_payload (g_state st)] else [])"
  by (simp add: notify_state_def notify_State_notifications)

section \<open>The scan utility and its busy guard\<close>

lemma scan_body_fields:
  "g_state (snd (scan_body env st)) = g_state st"
  "g_chars (snd (scan_body env st)) = g_chars st"
  "g_scan_busy (snd (scan_body env st)) = g_scan_busy st"
  by (simp_all add: scan_body_def Let_def split: option.splits)

lemma scan_body_notifications:
  "state_notifications (snd (scan_body env st)) = state_notifications st"
  by (simp add: scan_body_def Let_def state_notifications_perform split: option.splits)


lemma scan_body_result_indep: "fst (scan_body env st) = fst (scan_body env st')"
  by (simp add: scan_body_def Let_def split: option.splits)

lemma scan_ssids_busy: "g_scan_busy st \<Longrightarrow> scan_ssids env st = ([], st)"
  by (simp add: scan_ssids_def ScanBusyGuard_acquire_def ScanBusyGuard_release_def)

lemma scan_ssids_free:
  "\<not> g_scan_busy st \<Longrightarrow>
   scan_ssids env st =
     (fst (scan_body env (st\<lparr>g_scan_busy := True\<rparr>)),
      (snd (scan_body env (st\<lparr>g_scan_busy := True\<rparr>)))\<lparr>g_scan_busy := False\<rparr>)"
  by (simp add: scan_ssids_def ScanBusyGuard_acquire_def ScanBusyGuard_release_def
      split: prod.splits)

lemma scan_ssids_fields:
  "g_state (snd (scan_ssids env st)) = g_state st"
  "g_chars (snd (scan_ssids env st)) = g_chars st"
  "g_scan_busy (snd (scan_ssids env st)) = g_scan_busy st"
  by (cases "g_scan_busy st"; simp add: scan_ssids_busy scan_ssids_free scan_body_fields)+

lemma scan_ssids_exported: "state_exported (snd (scan_ssids env st)) = state_exported st"
  by (simp add: state_exported_def scan_ssids_fields)

lemma scan_ssids_notifying: "state_notifying (snd (scan_ssids env st)) = state_notifying st"
  by (simp add: state_notifying_def scan_ssids_fields)

lemma scan_ssids_notifications:
  "state_notifications (snd (scan_ssids env st)) = state_notifications st"
proof (cases "g_scan_busy st")
  case True
  then show ?thesis by (simp add: scan_ssids_busy)
next
  case False
  have "state_notifications (snd (scan_ssids env st)) =
        state_notifications (snd (scan_body env (st\<lparr>g_scan_busy := True\<rparr>)))"
    using False by (simp add: scan_ssids_free)
  then show ?thesis by (simp add: scan_body_notifications)
qed

lemma scan_ssids_result_indep:
  "g_scan_busy st = g_scan_busy st' \<Longrightarrow> fst (scan_ssids env st) = fst (scan_ssids env st')"
proof (cases "g_scan_busy st")
  case True
  assume "g_scan_busy st = g_scan_busy st'"
  with True show ?thesis by (simp add: scan_ssids_busy)
next
  case False
  assume "g_scan_busy st = g_scan_busy st'"
  with False show ?thesis
    using scan_body_result_indep [of env "st\<lparr>g_scan_busy := True\<rparr>" "st'\<lparr>g_scan_busy := True\<rparr>"]
    by (simp add: scan_ssids_free)
qed


section \<open>Facts about the concrete platforms and states\<close>

lemma startup_started_state: "startup True True True = Inr started_state"
  by (simp add: startup_def export_device_info_def export_state_def export_command_def
      export_characteristic_def initial_state_def started_state_def devinfo_context_def
      state_context_def command_context_def on_read_state_def make_state_payload_def
      on_read_device_info_def make_ay_from_string_def c_str_def state_payload_open_def
      payload_close_def DEVICEINFO_JSON_def)

lemma reachable_started_state: "reachable started_state"
  using startup_started_state by (rule reachable.started)

lemma paths_distinct:
  "CHR_STATE \<noteq> CHR_DEVINFO" "CHR_STATE \<noteq> CHR_COMMAND" "CHR_DEVINFO \<noteq> CHR_COMMAND"
  by (simp_all add: CHR_STATE_def CHR_DEVINFO_def CHR_COMMAND_def)

lemma started_state_lookup:
  "g_chars started_state CHR_STATE = Some (state_context False)"
  "g_chars subscribed_state CHR_STATE = Some (state_context True)"
  using paths_distinct by (simp_all add: started_state_def subscribed_state_def)

lemma wlan0_unaddressed: "wlan0_ssid_ip unaddressed_env = Some (''HomeNet'', [])"
  by (simp add: wlan0_ssid_ip_def unaddressed_env_def device_by_iface_def example_wlan0_def)

lemma on_ipv4_ready_unaddressed: 
  "on_ipv4_ready unaddressed_env st = perform NmClientNew st"
  by (simp add: on_ipv4_ready_def unaddressed_env_def device_by_iface_def example_wlan0_def Let_def)

lemma start_notify_started_state:
  "snd (on_method_call unaddressed_env CHR_STATE StartNotify started_state) = subscribed_state"
  using paths_distinct
  apply (simp add: on_method_call_def started_state_lookup set_notifying_def state_context_def
      on_state_notify_def notify_ipv4_ready_def on_ipv4_ready_unaddressed)
  apply (simp add: perform_def started_state_def subscribed_state_def state_context_def)
  apply (rule ext)
  apply simp
  done

lemma example_scan: "fst (scan_ssids example_env started_state) = [''HomeNet'', ''Cafe'']"
  by (simp add: scan_ssids_def ScanBusyGuard_acquire_def started_state_def scan_body_def
      example_env_def first_wifi_device_def example_wlan0_def example_aps_def Let_def
      ssid_to_string_def insertion_sort_desc_def perform_def split: prod.splits)


lemma reachable_subscribed_state: "reachable subscribed_state"
  using reachable.method_call [OF reachable_started_state, of unaddressed_env CHR_STATE StartNotify]
  by (simp add: start_notify_started_state)

lemma example_states_exported:
  "state_exported started_state" "\<not> state_notifying started_state"
  "state_exported subscribed_state" "state_notifying subscribed_state"
  by (simp_all add: state_exported_def state_notifying_def started_state_lookup state_context_def)


section \<open>The scan handler\<close>

lemma scanning_payload:
  \<open>make_state_payload ''SCANNING'' = ''{"state":"SCANNING"}''\<close>
  \<open>make_state_payload ''SCAN_COMPLETE'' = ''{"state":"SCAN_COMPLETE"}''\<close>
  \<open>make_state_payload ''CONNECTING'' = ''{"state":"CONNECTING"}''\<close>
  \<open>make_state_payload ''UNCONFIGURED'' = ''{"state":"UNCONFIGURED"}''\<close>
  \<open>make_state_payload ''CONNECTED'' = ''{"state":"CONNECTED"}''\<close>
  by (simp_all add: make_state_payload_def make_ay_from_string_def c_str_def
      state_payload_open_def payload_close_def)

lemma build_loop_no_nul:
  "CHR 0x00 \<notin> set payload \<Longrightarrow> CHR 0x00 \<notin> set (build_loop payload first ssids)"
proof (induction ssids arbitrary: payload first)
  case Nil
  then show ?case by simp
next
  case (Cons ssid rest)
  then show ?case using json_escape_no_nul [of ssid] by (simp add: Let_def)
qed

lemma build_wifi_scan_payload_no_nul: "CHR 0x00 \<notin> set (build_wifi_scan_payload ssids)"
  using build_loop_no_nul [of scan_payload_open True ssids]
  by (simp add: build_wifi_scan_payload_def scan_payload_open_def scan_payload_close_def)

lemma handle_wifi_scan_request_unfold:
  "handle_wifi_scan_request env st =
     notify_state
       ((notify_characteristic_value CHR_STATE
           (Some (build_wifi_scan_payload
                    (fst (scan_ssids env (notify_state (st\<lparr>g_state := ''SCANNING''\<rparr>))))))
           (snd (scan_ssids env (notify_state (st\<lparr>g_state := ''SCANNING''\<rparr>)))))
        \<lparr>g_state := ''SCAN_COMPLETE''\<rparr>)"
  by (simp add: handle_wifi_scan_request_def Let_def case_prod_beta make_ay_no_nul
      build_wifi_scan_payload_no_nul)

lemma handle_wifi_scan_request_g_state:
  "g_state (handle_wifi_scan_request env st) = ''SCAN_COMPLETE''"
  by (simp add: handle_wifi_scan_request_unfold notify_state_facts)

lemma handle_wifi_scan_request_exported:
  "state_exported (handle_wifi_scan_request env st) = state_exported st"
  by (simp add: handle_wifi_scan_request_unfold notify_state_facts scan_ssids_exported)

lemma handle_wifi_scan_request_notifying:
  "state_notifying (handle_wifi_scan_request env st) = state_notifying st"
  by (simp add: handle_wifi_scan_request_unfold notify_state_facts scan_ssids_notifying)

lemma handle_wifi_scan_request_notifications:
  assumes "state_exported st"
  shows \<open>state_notifications (handle_wifi_scan_request env st) =
          state_notifications st @
          (if state_notifying st
           then [''{"state":"SCANNING"}'',
                 build_wifi_scan_payload (fst (scan_ssids env st)),
                 ''{"state":"SCAN_COMPLETE"}'']
           else [])\<close>
proof -
  let ?st1 = "notify_state (st\<lparr>g_state := ''SCANNING''\<rparr>)"
  let ?st2 = "snd (scan_ssids env ?st1)"
  let ?ssids = "fst (scan_ssids env ?st1)"
  let ?st3 = "notify_characteristic_value CHR_STATE (Some (build_wifi_scan_payload ?ssids)) ?st2"
  have same: "?ssids = fst (scan_ssids env st)"
    by (rule scan_ssids_result_indep) (simp add: notify_state_facts)
  have n1: "state_notifications ?st1 =
      state_notifications st @ (if state_notifying st then [make_state_payload ''SCANNING''] else [])"
    using assms by (simp add: notify_state_notifications)
  have e1: "state_exported ?st1" "state_notifying ?st1 = state_notifying st"
    using assms by (simp_all add: notify_state_facts)
  have n2: "state_notifications ?st2 = state_notifications ?st1"
    by (rule scan_ssids_notifications)
  have e2: "state_exported ?st2" "state_notifying ?st2 = state_notifying st"
    using e1 by (simp_all add: scan_ssids_exported scan_ssids_notifying)
  have n3: "state_notifications ?st3 =
      state_notifications ?st2 @
        (if state_notifying st then [build_wifi_scan_payload ?ssids] else [])"
    using e2 by (simp add: notify_State_notifications)
  have e3: "state_exported ?st3" "state_notifying ?st3 = state_notifying st"
    using e2 by simp_all
  have n4: "state_notifications (notify_state (?st3\<lparr>g_state := ''SCAN_COMPLETE''\<rparr>)) =
      state_notifications ?st3 @
        (if state_notifying st then [make_state_payload ''SCAN_COMPLETE''] else [])"
    using e3 by (simp add: notify_state_notifications)
  have "state_notifications (handle_wifi_scan_request env st) =
        state_notifications (notify_state (?st3\<lparr>g_state := ''SCAN_COMPLETE''\<rparr>))"
    by (simp only: handle_wifi_scan_request_unfold)
  also have "\<dots> = state_notifications st @
      (if state_notifying st
       then [make_state_payload ''SCANNING'', build_wifi_scan_payload ?ssids,
             make_state_payload ''SCAN_COMPLETE'']
       else [])"
    by (simp only: n4 n3 n2 n1) simp
  finally show ?thesis by (simp only: same scanning_payload)
qed

section \<open>The command parser\<close>

lemma json_get_string_empty_payload [simp]: "json_get_string [] key = []"
  by (simp add: json_get_string_def str_find_def)

lemma ay_to_string_id [simp]: "ay_to_string val = val"
  by (simp add: ay_to_string_def)

lemma resolve_op_nonempty:
  "json_get_string payload ''op'' \<noteq> [] \<Longrightarrow> resolve_op payload = json_get_string payload ''op''"
  by (simp add: resolve_op_def)

lemma resolve_op_legacy_scan:
  "json_get_string payload ''op'' = [] \<Longrightarrow> json_get_string payload ''cmd'' = ''wifi.scan'' \<Longrightarrow>
   resolve_op payload = ''wifi_scan''"
  by (simp add: resolve_op_def)

lemma resolve_op_legacy_connect:
  "json_get_string payload ''op'' = [] \<Longrightarrow> json_get_string payload ''cmd'' = ''wifi.connect'' \<Longrightarrow>
   resolve_op payload = ''wifi_connect''"
  by (simp add: resolve_op_def)

lemma resolve_op_nonempty_payload: "resolve_op payload \<noteq> [] \<Longrightarrow> payload \<noteq> []"
  by (auto simp: resolve_op_def)

lemma on_write_command_scan:
  "resolve_op payload = ''wifi_scan'' \<Longrightarrow>
   on_write_command env payload st = handle_wifi_scan_request env st"
  using resolve_op_nonempty_payload [of payload] by (simp add: on_write_command_def)

lemma on_write_command_connect:
  "resolve_op payload = ''wifi_connect'' \<Longrightarrow>
   on_write_command env payload st =
     (if json_get_string payload ''ssid'' = [] then st
      else handle_wifi_connect_request env (json_get_string payload ''ssid'')
             (json_get_string payload ''psk'') st)"
  using resolve_op_nonempty_payload [of payload] by (simp add: on_write_command_def Let_def)

lemma example_payloads:
  \<open>json_get_string ''{"op":"wifi_scan"}'' ''op'' = ''wifi_scan''\<close>
  \<open>json_get_string ''{"cmd":"wifi.scan"}'' ''op'' = []\<close>
  \<open>json_get_string ''{"cmd":"wifi.scan"}'' ''cmd'' = ''wifi.scan''\<close>
  \<open>json_get_string ''{"op":"wifi_connect","ssid":"HomeNet","psk":"secret"}'' ''op'' = ''wifi_connect''\<close>
  \<open>json_get_string ''{"op":"wifi_connect","ssid":"HomeNet","psk":"secret"}'' ''ssid'' = ''HomeNet''\<close>
  \<open>json_get_string ''{"op":"wifi_connect","ssid":"HomeNet","psk":"secret"}'' ''psk'' = ''secret''\<close>
  \<open>json_get_string ''{"cmd":"wifi.connect","ssid":"HomeNet","psk":"secret"}'' ''op'' = []\<close>
  \<open>json_get_string ''{"cmd":"wifi.connect","ssid":"HomeNet","psk":"secret"}'' ''cmd'' = ''wifi.connect''\<close>
  \<open>json_get_string ''{"cmd":"wifi.connect","ssid":"HomeNet","psk":"secret"}'' ''ssid'' = ''HomeNet''\<close>
  \<open>json_get_string ''{"cmd":"wifi.connect","ssid":"HomeNet","psk":"secret"}'' ''psk'' = ''secret''\<close>
  \<open>json_get_string ''{"op":"wifi_connect","ssid":"","psk":"secret"}'' ''op'' = ''wifi_connect''\<close>
  \<open>json_get_string ''{"op":"wifi_connect","ssid":"","psk":"secret"}'' ''ssid'' = []\<close>
  \<open>json_get_string ''{"op":"wifi_connect","psk":"secret"}'' ''op'' = ''wifi_connect''\<close>
  \<open>json_get_string ''{"op":"wifi_connect","psk":"secret"}'' ''ssid'' = []\<close>
  \<open>json_get_string ''{"op":"wifi_scan","cmd":"wifi.connect"}'' ''op'' = ''wifi_scan''\<close>
  by (simp_all add: json_get_string_def str_find_def substr_def)

section \<open>Scan requests written to Command\<close>

text \<open>
  C1, as the code has it. A write to Command whose \<^verbatim>\<open>op\<close> field is \<^verbatim>\<open>wifi_scan\<close> leaves the
  provisioning state at \<^verbatim>\<open>SCAN_COMPLETE\<close>. When the State characteristic is notifying (a
  central has called \<^verbatim>\<open>StartNotify\<close>), the write adds exactly three notifications on State,
  in this order: the state payload for \<^verbatim>\<open>SCANNING\<close>, the SSID list payload built from the
  scan result (of the form of the specification, for a prefix of the result), the state
  payload for \<^verbatim>\<open>SCAN_COMPLETE\<close>. When State is not notifying, the write adds no
  notification: \<^verbatim>\<open>notify_characteristic_value\<close> is then a no-op.
\<close>

theorem wifi_scan_write_notifications:
  assumes "state_exported st" and "json_get_string payload ''op'' = ''wifi_scan''"
  shows \<open>g_state (on_write_command env payload st) = ''SCAN_COMPLETE''
       \<and> state_notifications (on_write_command env payload st) =
           state_notifications st @
           (if state_notifying st
            then [''{"state":"SCANNING"}'',
                  build_wifi_scan_payload (fst (scan_ssids env st)),
                  ''{"state":"SCAN_COMPLETE"}'']
            else [])
       \<and> (\<exists>k\<le>length (fst (scan_ssids env st)).
             build_wifi_scan_payload (fst (scan_ssids env st)) =
               scan_payload_of (take k (fst (scan_ssids env st))))\<close>
proof -
  have "resolve_op payload = ''wifi_scan''"
    using assms(2) by (simp add: resolve_op_nonempty)
  then have "on_write_command env payload st = handle_wifi_scan_request env st"
    by (rule on_write_command_scan)
  then show ?thesis
    using handle_wifi_scan_request_notifications [OF assms(1), of env]
      handle_wifi_scan_request_g_state [of env st]
      build_payload_is_prefix_payload [of "fst (scan_ssids env st)"]
    by simp
qed

lemma example_scan_subscribed:
  "fst (scan_ssids example_env subscribed_state) = [''HomeNet'', ''Cafe'']"
  using scan_ssids_result_indep [of subscribed_state started_state example_env] example_scan
  by (simp add: subscribed_state_def started_state_def)

lemma example_scan_payload:
  \<open>build_wifi_scan_payload [''HomeNet'', ''Cafe''] =
     ''{"op":"wifi_scan","ssids":["HomeNet","Cafe"]}''\<close>
  by (simp add: build_wifi_scan_payload_def scan_payload_open_def scan_payload_close_def
      json_escape_def MAX_NOTIFY_BYTES_def)

lemma example_notifications_none:
  "state_notifications started_state = []" "state_notifications subscribed_state = []"
  by (simp_all add: state_notifications_def started_state_def subscribed_state_def)

text \<open>
  Scenario A of the specification, after \<^verbatim>\<open>StartNotify\<close>: the three notifications, byte for
  byte.
\<close>

theorem wifi_scan_write_notifications_witness:
  \<open>state_exported subscribed_state
   \<and> json_get_string ''{"op":"wifi_scan"}'' ''op'' = ''wifi_scan''
   \<and> g_state (on_write_command example_env ''{"op":"wifi_scan"}'' subscribed_state) =
       ''SCAN_COMPLETE''
   \<and> state_notifications (on_write_command example_env ''{"op":"wifi_scan"}'' subscribed_state) =
       [''{"state":"SCANNING"}'',
        ''{"op":"wifi_scan","ssids":["HomeNet","Cafe"]}'',
        ''{"state":"SCAN_COMPLETE"}'']\<close>
  using wifi_scan_write_notifications
    [OF example_states_exported(3) example_payloads(1), of example_env]
    example_states_exported(3,4) example_payloads(1) example_scan_subscribed
    example_scan_payload example_notifications_none(2)
  by simp

text \<open>
  C1 as stated fails before \<^verbatim>\<open>StartNotify\<close>: in the state in which the main loop starts, the
  same write changes the state to \<^verbatim>\<open>SCAN_COMPLETE\<close> and emits no notification at all.
\<close>

theorem wifi_scan_write_counterexample:
  \<open>reachable started_state
   \<and> json_get_string ''{"op":"wifi_scan"}'' ''op'' = ''wifi_scan''
   \<and> state_notifications started_state = []
   \<and> state_notifications (on_write_command example_env ''{"op":"wifi_scan"}'' started_state) = []
   \<and> g_state (on_write_command example_env ''{"op":"wifi_scan"}'' started_state) =
       ''SCAN_COMPLETE''\<close>
proof -
  have op: \<open>resolve_op ''{"op":"wifi_scan"}'' = ''wifi_scan''\<close>
    using example_payloads(1) by (simp add: resolve_op_nonempty)
  have w: \<open>on_write_command example_env ''{"op":"wifi_scan"}'' started_state =
           handle_wifi_scan_request example_env started_state\<close>
    using op by (rule on_write_command_scan)
  show ?thesis
    using handle_wifi_scan_request_notifications [OF example_states_exported(1), of example_env]
      handle_wifi_scan_request_g_state [of example_env started_state]
      example_states_exported(2) example_notifications_none(1) reachable_started_state
      example_payloads(1) w
    by simp
qed

section \<open>Connect requests\<close>

lemma notify_State_effects:
  "state_exported st \<Longrightarrow>
   effects (notify_characteristic_value CHR_STATE (Some v) st) =
     effects st @ (if state_notifying st then [PropertiesChanged CHR_STATE v] else [])"
  by (auto simp: notify_characteristic_value_def emit_value_changed_def Let_def state_exported_def
      state_notifying_def split: option.splits prod.splits)

lemma notify_state_effects:
  "state_exported st \<Longrightarrow>
   effects (notify_state st) =
     effects st @
     (if state_notifying st then [PropertiesChanged CHR_STATE (make_state_payload (g_state st))]
      else [])"
  by (simp add: notify_state_def notify_State_effects)

lemma g_state_update_effects [simp]: "effects (st\<lparr>g_state := s\<rparr>) = effects st"
  by simp

lemma connect_result_indep: "fst (connect env ssid psk st) = fst (connect env ssid psk st')"
  by (simp add: connect_def Let_def split: option.splits)

lemma connect_fields:
  "g_state (snd (connect env ssid psk st)) = g_state st"
  "g_chars (snd (connect env ssid psk st)) = g_chars st"
  "g_scan_busy (snd (connect env ssid psk st)) = g_scan_busy st"
  by (simp_all add: connect_def Let_def split: option.splits)

lemma connect_exported: "state_exported (snd (connect env ssid psk st)) = state_exported st"
  by (simp add: state_exported_def connect_fields)

lemma connect_notifying: "state_notifying (snd (connect env ssid psk st)) = state_notifying st"
  by (simp add: state_notifying_def connect_fields)

lemma connect_effects:
  "effects (snd (connect env ssid psk st)) =
     effects st @ NmClientNew #
       (if fst (connect env ssid psk st) = REQUESTED
        then [NmAddAndActivate (c_str ssid) ssid (c_str psk)] else [])"
  by (simp add: connect_def Let_def split: option.splits)

lemma connect_requested_iff:
  "fst (connect env ssid psk st) = REQUESTED \<longleftrightarrow>
     (\<exists>devs wifi. nm_client_new env = Some devs \<and> first_wifi_device devs = Some wifi)"
  by (simp add: connect_def Let_def split: option.splits)

lemma handle_wifi_connect_request_unfold:
  "handle_wifi_connect_request env ssid psk st =
     (if fst (connect env ssid psk st) \<noteq> REQUESTED
      then notify_state
             ((snd (connect env ssid psk (notify_state (st\<lparr>g_state := ''CONNECTING''\<rparr>))))
              \<lparr>g_state := ''UNCONFIGURED''\<rparr>)
      else snd (connect env ssid psk (notify_state (st\<lparr>g_state := ''CONNECTING''\<rparr>))))"
  using connect_result_indep [of env ssid psk "notify_state (st\<lparr>g_state := ''CONNECTING''\<rparr>)" st]
  by (simp add: handle_wifi_connect_request_def Let_def case_prod_beta)

lemma handle_wifi_connect_request_g_state:
  "g_state (handle_wifi_connect_request env ssid psk st) =
     (if fst (connect env ssid psk st) = REQUESTED then ''CONNECTING'' else ''UNCONFIGURED'')"
  by (simp add: handle_wifi_connect_request_unfold notify_state_facts connect_fields)

lemma handle_wifi_connect_request_exported:
  "state_exported (handle_wifi_connect_request env ssid psk st) = state_exported st"
  by (simp add: handle_wifi_connect_request_unfold notify_state_facts connect_exported)

lemma handle_wifi_connect_request_notifying:
  "state_notifying (handle_wifi_connect_request env ssid psk st) = state_notifying st"
  by (simp add: handle_wifi_connect_request_unfold notify_state_facts connect_notifying)

lemma handle_wifi_connect_request_effects:
  assumes "state_exported st"
  shows \<open>effects (handle_wifi_connect_request env ssid psk st) =
          effects st
          @ (if state_notifying st
             then [PropertiesChanged CHR_STATE ''{"state":"CONNECTING"}''] else [])
          @ [NmClientNew]
          @ (if fst (connect env ssid psk st) = REQUESTED
             then [NmAddAndActivate (c_str ssid) ssid (c_str psk)]
             else if state_notifying st
             then [PropertiesChanged CHR_STATE ''{"state":"UNCONFIGURED"}''] else [])\<close>
proof -
  let ?st1 = "notify_state (st\<lparr>g_state := ''CONNECTING''\<rparr>)"
  let ?st2 = "snd (connect env ssid psk ?st1)"
  have r: "fst (connect env ssid psk ?st1) = fst (connect env ssid psk st)"
    by (rule connect_result_indep)
  have f1: "effects ?st1 =
      effects st @ (if state_notifying st
                    then [PropertiesChanged CHR_STATE (make_state_payload ''CONNECTING'')] else [])"
    using assms by (simp add: notify_state_effects)
  have e1: "state_exported ?st1" "state_notifying ?st1 = state_notifying st"
    using assms by (simp_all add: notify_state_facts)
  have f2: "effects ?st2 = effects ?st1 @ NmClientNew #
      (if fst (connect env ssid psk st) = REQUESTED
       then [NmAddAndActivate (c_str ssid) ssid (c_str psk)] else [])"
    using connect_effects [of env ssid psk ?st1] r by simp
  have e2: "state_exported ?st2" "state_notifying ?st2 = state_notifying st"
    using e1 by (simp_all add: connect_exported connect_notifying)
  have f3: "effects (notify_state (?st2\<lparr>g_state := ''UNCONFIGURED''\<rparr>)) =
      effects ?st2 @ (if state_notifying st
                      then [PropertiesChanged CHR_STATE (make_state_payload ''UNCONFIGURED'')] else [])"
    using e2 by (simp add: notify_state_effects)
  show ?thesis
  proof (cases "fst (connect env ssid psk st) = REQUESTED")
    case True
    then have "handle_wifi_connect_request env ssid psk st = ?st2"
      by (simp add: handle_wifi_connect_request_unfold)
    then show ?thesis using True f2 f1 by (simp add: scanning_payload)
  next
    case False
    then have "handle_wifi_connect_request env ssid psk st =
               notify_state (?st2\<lparr>g_state := ''UNCONFIGURED''\<rparr>)"
      by (simp add: handle_wifi_connect_request_unfold)
    then show ?thesis using False f3 f2 f1 by (simp add: scanning_payload)
  qed
qed

lemma state_notifications_effects:
  "effects st' = effects st @ es \<Longrightarrow>
   state_notifications st' = state_notifications st @ notifications_on CHR_STATE es"
  by (simp add: state_notifications_def notifications_on_append)

text \<open>
  C4, as the code has it. For a connect request with a non-empty SSID the handler sets the
  state to \<^verbatim>\<open>CONNECTING\<close> and notifies it before it calls \<^verbatim>\<open>connect\<close>. If \<^verbatim>\<open>connect\<close> returns
  anything but \<^verbatim>\<open>REQUESTED\<close>, the state ends at \<^verbatim>\<open>UNCONFIGURED\<close>, which is notified after
  \<^verbatim>\<open>CONNECTING\<close>; otherwise the state stays \<^verbatim>\<open>CONNECTING\<close> and nothing more is notified. Each
  of these notifications reaches the bus only while State is notifying; while it is not,
  the handler changes the state all the same and emits nothing.
\<close>

theorem wifi_connect_request_flow:
  assumes "state_exported st" and "ssid \<noteq> []"
  shows \<open>g_state (handle_wifi_connect_request env ssid psk st) =
          (if fst (connect env ssid psk st) = REQUESTED then ''CONNECTING'' else ''UNCONFIGURED'')
       \<and> effects (handle_wifi_connect_request env ssid psk st) =
          effects st
          @ (if state_notifying st
             then [PropertiesChanged CHR_STATE ''{"state":"CONNECTING"}''] else [])
          @ [NmClientNew]
          @ (if fst (connect env ssid psk st) = REQUESTED
             then [NmAddAndActivate (c_str ssid) ssid (c_str psk)]
             else if state_notifying st
             then [PropertiesChanged CHR_STATE ''{"state":"UNCONFIGURED"}''] else [])
       \<and> state_notifications (handle_wifi_connect_request env ssid psk st) =
          state_notifications st
          @ (if state_notifying st
             then (if fst (connect env ssid psk st) = REQUESTED
                   then [''{"state":"CONNECTING"}'']
                   else [''{"state":"CONNECTING"}'', ''{"state":"UNCONFIGURED"}''])
             else [])\<close>
proof -
  note eff = handle_wifi_connect_request_effects [OF assms(1), of env ssid psk]
  have "state_notifications (handle_wifi_connect_request env ssid psk st) =
        state_notifications st @ notifications_on CHR_STATE
          ((if state_notifying st
             then [PropertiesChanged CHR_STATE (make_state_payload ''CONNECTING'')] else [])
          @ [NmClientNew]
          @ (if fst (connect env ssid psk st) = REQUESTED
             then [NmAddAndActivate (c_str ssid) ssid (c_str psk)]
             else if state_notifying st
             then [PropertiesChanged CHR_STATE (make_state_payload ''UNCONFIGURED'')] else []))"
    by (rule state_notifications_effects) (simp add: eff scanning_payload)
  then show ?thesis
    using eff handle_wifi_connect_request_g_state [of env ssid psk st]
    by (simp add: scanning_payload)
qed

lemma example_connect:
  "fst (connect example_env ssid psk st) = REQUESTED"
  "fst (connect offline_env ssid psk st) = FAILED"
  by (simp_all add: connect_def example_env_def offline_env_def first_wifi_device_def
      example_wlan0_def Let_def)

text \<open>Scenarios C and D of the specification, after \<^verbatim>\<open>StartNotify\<close>.\<close>

theorem wifi_connect_request_flow_witness:
  \<open>state_exported subscribed_state \<and> ''HomeNet'' \<noteq> []
   \<and> g_state (handle_wifi_connect_request example_env ''HomeNet'' ''secret'' subscribed_state) =
       ''CONNECTING''
   \<and> state_notifications
        (handle_wifi_connect_request example_env ''HomeNet'' ''secret'' subscribed_state) =
       [''{"state":"CONNECTING"}'']
   \<and> g_state (handle_wifi_connect_request offline_env ''HomeNet'' ''secret'' subscribed_state) =
       ''UNCONFIGURED''
   \<and> state_notifications
        (handle_wifi_connect_request offline_env ''HomeNet'' ''secret'' subscribed_state) =
       [''{"state":"CONNECTING"}'', ''{"state":"UNCONFIGURED"}'']\<close>
proof -
  have ne: "''HomeNet'' \<noteq> []" by simp
  show ?thesis
    using wifi_connect_request_flow [OF example_states_exported(3) ne, of example_env "''secret''"]
      wifi_connect_request_flow [OF example_states_exported(3) ne, of offline_env "''secret''"]
      example_states_exported(3,4) example_connect example_notifications_none(2)
    by simp
qed

text \<open>
  C4 as stated fails before \<^verbatim>\<open>StartNotify\<close>: in the state in which the main loop starts, an
  accepted request moves the state to \<^verbatim>\<open>CONNECTING\<close> and a rejected one to \<^verbatim>\<open>UNCONFIGURED\<close>,
  and neither emits a notification.
\<close>

theorem wifi_connect_request_counterexample:
  \<open>reachable started_state
   \<and> state_notifications started_state = []
   \<and> g_state (handle_wifi_connect_request example_env ''HomeNet'' ''secret'' started_state) =
       ''CONNECTING''
   \<and> state_notifications
        (handle_wifi_connect_request example_env ''HomeNet'' ''secret'' started_state) = []
   \<and> fst (connect offline_env ''HomeNet'' ''secret'' started_state) \<noteq> REQUESTED
   \<and> state_notifications
        (handle_wifi_connect_request offline_env ''HomeNet'' ''secret'' started_state) = []\<close>
proof -
  have n: "state_notifications (handle_wifi_connect_request env ''HomeNet'' ''secret'' started_state)
           = []" for env
    using state_notifications_effects
      [OF handle_wifi_connect_request_effects [OF example_states_exported(1), of env "''HomeNet''" "''secret''"]]
      example_states_exported(2) example_notifications_none(1)
    by simp
  show ?thesis
    using n reachable_started_state example_notifications_none(1) example_connect
      handle_wifi_connect_request_g_state [of example_env "''HomeNet''" "''secret''" started_state]
    by simp
qed

section \<open>IPv4-ready and StartNotify\<close>

lemma on_ipv4_ready_cases:
  "on_ipv4_ready env st =
     (case wlan0_ssid_ip env of
        None \<Rightarrow> perform NmClientNew st
      | Some (ssid, ip) \<Rightarrow>
          if ip \<noteq> [] then notify_state_connected ssid ip (perform NmClientNew st)
          else perform NmClientNew st)"
  by (simp add: on_ipv4_ready_def wlan0_ssid_ip_def Let_def split: option.splits)

lemma notify_state_connected_unfold:
  "notify_state_connected ssid ip st =
     notify_characteristic_value CHR_STATE (Some (connected_payload ssid ip))
       (st\<lparr>g_state := ''CONNECTED''\<rparr>)"
  by (simp add: notify_state_connected_def Let_def make_ay_no_nul connected_payload_no_nul)

lemma notify_state_connected_facts:
  "g_state (notify_state_connected ssid ip st) = ''CONNECTED''"
  "g_scan_busy (notify_state_connected ssid ip st) = g_scan_busy st"
  "state_exported (notify_state_connected ssid ip st) = state_exported st"
  "state_notifying (notify_state_connected ssid ip st) = state_notifying st"
  by (simp_all add: notify_state_connected_unfold)

lemma notify_state_connected_notifications:
  "state_exported st \<Longrightarrow>
   state_notifications (notify_state_connected ssid ip st) =
     state_notifications st @ (if state_notifying st then [connected_payload ssid ip] else [])"
  by (simp add: notify_state_connected_unfold notify_State_notifications)

lemma on_ipv4_ready_exported: "state_exported (on_ipv4_ready env st) = state_exported st"
  by (simp add: on_ipv4_ready_cases notify_state_connected_facts split: option.splits)

lemma on_ipv4_ready_notifying: "state_notifying (on_ipv4_ready env st) = state_notifying st"
  by (simp add: on_ipv4_ready_cases notify_state_connected_facts split: option.splits)

lemma on_ipv4_ready_g_state:
  "g_state (on_ipv4_ready env st) =
     (case wlan0_ssid_ip env of
        None \<Rightarrow> g_state st
      | Some (ssid, ip) \<Rightarrow> if ip \<noteq> [] then ''CONNECTED'' else g_state st)"
  by (simp add: on_ipv4_ready_cases notify_state_connected_facts split: option.splits)

lemma on_ipv4_ready_notifications:
  "state_exported st \<Longrightarrow>
   state_notifications (on_ipv4_ready env st) =
     state_notifications st @
     (case wlan0_ssid_ip env of
        None \<Rightarrow> []
      | Some (ssid, ip) \<Rightarrow>
          if ip \<noteq> [] \<and> state_notifying st then [connected_payload ssid ip] else [])"
  by (simp add: on_ipv4_ready_cases notify_state_connected_notifications
      state_notifications_perform split: option.splits)

lemma set_notifying_State:
  "state_exported st \<Longrightarrow> state_exported (set_notifying CHR_STATE b st)"
  "state_exported st \<Longrightarrow> state_notifying (set_notifying CHR_STATE b st) = b"
  "g_state (set_notifying path b st) = g_state st"
  "g_scan_busy (set_notifying path b st) = g_scan_busy st"
  "state_notifications (set_notifying path b st) = state_notifications st"
  by (simp_all add: set_notifying_def state_exported_def state_notifying_def
      state_notifications_def split: option.splits)

lemma start_notify_State:
  "state_exported st \<Longrightarrow>
   on_method_call env CHR_STATE StartNotify st =
     (ReturnEmpty, on_ipv4_ready env (set_notifying CHR_STATE True st))"
  by (simp add: on_method_call_def state_exported_def on_state_notify_def notify_ipv4_ready_def
      split: option.splits)

text \<open>
  C2, as the code has it. \<^verbatim>\<open>StartNotify\<close> on State makes the characteristic notifying and runs
  the IPv4-ready handler, which does not look at the provisioning state but asks
  NetworkManager. If \<^verbatim>\<open>wlan0\<close> is a Wi-Fi device with a non-empty first IPv4 address, the
  state becomes \<^verbatim>\<open>CONNECTED\<close>, whatever it was, and exactly one \<^verbatim>\<open>CONNECTED\<close> notification is
  emitted, carrying the SSID and the address read at that moment. Otherwise the state is
  left unchanged and nothing is emitted, also when the state is \<^verbatim>\<open>CONNECTED\<close>.
\<close>

theorem start_notify_reports_connection:
  assumes "state_exported st"
  shows "fst (on_method_call env CHR_STATE StartNotify st) = ReturnEmpty
       \<and> state_notifying (snd (on_method_call env CHR_STATE StartNotify st))
       \<and> (case wlan0_ssid_ip env of
            None \<Rightarrow>
              g_state (snd (on_method_call env CHR_STATE StartNotify st)) = g_state st
            \<and> state_notifications (snd (on_method_call env CHR_STATE StartNotify st)) =
                state_notifications st
          | Some (ssid, ip) \<Rightarrow>
              if ip \<noteq> [] then
                g_state (snd (on_method_call env CHR_STATE StartNotify st)) = ''CONNECTED''
              \<and> state_notifications (snd (on_method_call env CHR_STATE StartNotify st)) =
                  state_notifications st @ [connected_payload ssid ip]
              else
                g_state (snd (on_method_call env CHR_STATE StartNotify st)) = g_state st
              \<and> state_notifications (snd (on_method_call env CHR_STATE StartNotify st)) =
                  state_notifications st)"
proof -
  let ?st1 = "set_notifying CHR_STATE True st"
  have e: "state_exported ?st1" "state_notifying ?st1"
    using assms by (simp_all add: set_notifying_State)
  have n: "state_notifications (on_ipv4_ready env ?st1) =
      state_notifications st @
      (case wlan0_ssid_ip env of
         None \<Rightarrow> []
       | Some (ssid, ip) \<Rightarrow> if ip \<noteq> [] then [connected_payload ssid ip] else [])"
    using on_ipv4_ready_notifications [OF e(1), of env] e(2)
    by (simp add: set_notifying_State split: option.splits)
  have g: "g_state (on_ipv4_ready env ?st1) =
      (case wlan0_ssid_ip env of
         None \<Rightarrow> g_state st
       | Some (ssid, ip) \<Rightarrow> if ip \<noteq> [] then ''CONNECTED'' else g_state st)"
    by (simp add: on_ipv4_ready_g_state set_notifying_State split: option.splits)
  have s: "state_notifying (on_ipv4_ready env ?st1)"
    using e(2) by (simp add: on_ipv4_ready_notifying)
  show ?thesis
    using n g s by (simp add: start_notify_State [OF assms] split: option.splits)
qed

lemma example_wlan0_ssid_ip:
  "wlan0_ssid_ip example_env = Some (''HomeNet'', ''192.168.1.20'')"
  "wlan0_ssid_ip offline_env = None"
  by (simp_all add: wlan0_ssid_ip_def example_env_def offline_env_def device_by_iface_def
      example_wlan0_def c_str_def)

lemma example_connected_payload:
  \<open>connected_payload ''HomeNet'' ''192.168.1.20'' =
     ''{"state":"CONNECTED","ssid":"HomeNet","ip":"192.168.1.20"}''\<close>
  by (simp add: connected_payload_def json_escape_def)

text \<open>
  The state reached from start-up by an IPv4-ready event in the example platform, before
  any subscription: the state is \<^verbatim>\<open>CONNECTED\<close> and nothing was notified.
\<close>

lemma connected_unsubscribed:
  "reachable (on_ipv4_ready example_env started_state)"
  "state_exported (on_ipv4_ready example_env started_state)"
  "g_state (on_ipv4_ready example_env started_state) = ''CONNECTED''"
  "state_notifications (on_ipv4_ready example_env started_state) = []"
  using reachable.ipv4_ready [OF reachable_started_state, of example_env]
    on_ipv4_ready_notifications [OF example_states_exported(1), of example_env]
    example_states_exported(1,2) example_notifications_none(1)
  by (simp_all add: on_ipv4_ready_exported on_ipv4_ready_g_state example_wlan0_ssid_ip)

text \<open>Scenario E of the specification, and a subscription while \<^verbatim>\<open>wlan0\<close> has no address.\<close>

theorem start_notify_reports_connection_witness:
  \<open>state_exported (on_ipv4_ready example_env started_state)
   \<and> g_state (on_ipv4_ready example_env started_state) = ''CONNECTED''
   \<and> state_notifications
       (snd (on_method_call example_env CHR_STATE StartNotify
               (on_ipv4_ready example_env started_state))) =
       [''{"state":"CONNECTED","ssid":"HomeNet","ip":"192.168.1.20"}'']
   \<and> g_state
       (snd (on_method_call example_env CHR_STATE StartNotify
               (on_ipv4_ready example_env started_state))) = ''CONNECTED''
   \<and> state_exported started_state
   \<and> g_state (snd (on_method_call unaddressed_env CHR_STATE StartNotify started_state)) =
       ''UNCONFIGURED''
   \<and> state_notifications
       (snd (on_method_call unaddressed_env CHR_STATE StartNotify started_state)) = []\<close>
  using start_notify_reports_connection [OF connected_unsubscribed(2), of example_env]
    start_notify_reports_connection [OF example_states_exported(1), of unaddressed_env]
    connected_unsubscribed example_states_exported(1) example_wlan0_ssid_ip
    wlan0_unaddressed example_connected_payload example_notifications_none(1)
  by (simp add: started_state_def)

text \<open>
  C2 as stated fails in both directions. In the state in which the main loop starts
  (\<^verbatim>\<open>UNCONFIGURED\<close>), with \<^verbatim>\<open>wlan0\<close> already holding an address, \<^verbatim>\<open>StartNotify\<close> changes the
  state to \<^verbatim>\<open>CONNECTED\<close> and emits a notification. In the state \<^verbatim>\<open>CONNECTED\<close>, with \<^verbatim>\<open>wlan0\<close>
  holding no address any more, \<^verbatim>\<open>StartNotify\<close> emits nothing.
\<close>

theorem start_notify_counterexample:
  \<open>reachable started_state
   \<and> g_state started_state = ''UNCONFIGURED''
   \<and> g_state (snd (on_method_call example_env CHR_STATE StartNotify started_state)) =
       ''CONNECTED''
   \<and> state_notifications
       (snd (on_method_call example_env CHR_STATE StartNotify started_state)) =
       [''{"state":"CONNECTED","ssid":"HomeNet","ip":"192.168.1.20"}'']
   \<and> reachable (on_ipv4_ready example_env started_state)
   \<and> g_state (on_ipv4_ready example_env started_state) = ''CONNECTED''
   \<and> state_notifications
       (snd (on_method_call unaddressed_env CHR_STATE StartNotify
               (on_ipv4_ready example_env started_state))) = []\<close>
proof -
  have a: "state_notifications (on_ipv4_ready env (set_notifying CHR_STATE True st)) =
      state_notifications st @
      (case wlan0_ssid_ip env of
         None \<Rightarrow> []
       | Some (ssid, ip) \<Rightarrow> if ip \<noteq> [] then [connected_payload ssid ip] else [])"
    if "state_exported st" for env st
    using on_ipv4_ready_notifications [of "set_notifying CHR_STATE True st" env] that
    by (simp add: set_notifying_State split: option.splits)
  have g1: "g_state (snd (on_method_call example_env CHR_STATE StartNotify started_state)) =
            ''CONNECTED''"
    by (simp add: start_notify_State [OF example_states_exported(1)] on_ipv4_ready_g_state
        example_wlan0_ssid_ip)
  have n1: "state_notifications
       (snd (on_method_call example_env CHR_STATE StartNotify started_state)) =
       [connected_payload ''HomeNet'' ''192.168.1.20'']"
    using a [OF example_states_exported(1), of example_env]
    by (simp add: start_notify_State [OF example_states_exported(1)] example_wlan0_ssid_ip
        example_notifications_none)
  have n2: "state_notifications
       (snd (on_method_call unaddressed_env CHR_STATE StartNotify
               (on_ipv4_ready example_env started_state))) = []"
    using a [OF connected_unsubscribed(2), of unaddressed_env]
    by (simp add: start_notify_State [OF connected_unsubscribed(2)] wlan0_unaddressed
        connected_unsubscribed(4))
  show ?thesis
    using g1 n1 n2 reachable_started_state connected_unsubscribed(1,3)
    by (simp add: example_connected_payload started_state_def)
qed

section \<open>Dispatch of Command writes\<close>

lemma handle_wifi_connect_request_touches:
  "effects (handle_wifi_connect_request env ssid psk st) \<noteq> effects st"
proof -
  let ?st1 = "notify_state (st\<lparr>g_state := ''CONNECTING''\<rparr>)"
  let ?st2 = "snd (connect env ssid psk ?st1)"
  have grow1: "\<exists>es. effects ?st1 = effects st @ es"
    by (simp add: notify_state_def notify_characteristic_value_def emit_value_changed_def
        Let_def split: option.splits prod.splits)
  have grow2: "\<exists>es. effects ?st2 = effects ?st1 @ NmClientNew # es"
    by (simp add: connect_effects)
  have grow3: "\<exists>es. effects (notify_state (?st2\<lparr>g_state := ''UNCONFIGURED''\<rparr>)) = effects ?st2 @ es"
    by (simp add: notify_state_def notify_characteristic_value_def emit_value_changed_def
        Let_def split: option.splits prod.splits)
  from grow1 grow2 grow3 have "\<exists>es. effects (handle_wifi_connect_request env ssid psk st) =
      effects st @ es \<and> es \<noteq> []"
    by (auto simp: handle_wifi_connect_request_unfold)
  then show ?thesis by auto
qed

text \<open>
  C8. A Command write whose operation resolves to \<^verbatim>\<open>wifi_connect\<close> while the extracted
  \<^verbatim>\<open>ssid\<close> is empty returns with the whole program state as it was: the provisioning state is
  unchanged, no notification is emitted and no call into NetworkManager is made. The
  connect handler was not called, since a call of it always extends the trace of effects.
\<close>

theorem wifi_connect_empty_ssid_ignored:
  assumes "resolve_op payload = ''wifi_connect''" and "json_get_string payload ''ssid'' = []"
  shows "on_write_command env payload st = st
       \<and> g_state (on_write_command env payload st) = g_state st
       \<and> state_notifications (on_write_command env payload st) = state_notifications st
       \<and> effects (on_write_command env payload st) = effects st
       \<and> on_write_command env payload st \<noteq> handle_wifi_connect_request env ssid psk st"
proof -
  have same: "on_write_command env payload st = st"
    using assms by (simp add: on_write_command_connect)
  have "handle_wifi_connect_request env ssid psk st \<noteq> st"
    using handle_wifi_connect_request_touches [of env ssid psk st] by auto
  with same show ?thesis by simp
qed

text \<open>An empty \<^verbatim>\<open>ssid\<close> value, a missing \<^verbatim>\<open>ssid\<close> field, and the legacy form of the request.\<close>

theorem wifi_connect_empty_ssid_ignored_witness:
  \<open>resolve_op ''{"op":"wifi_connect","ssid":"","psk":"secret"}'' = ''wifi_connect''
   \<and> json_get_string ''{"op":"wifi_connect","ssid":"","psk":"secret"}'' ''ssid'' = []
   \<and> on_write_command example_env ''{"op":"wifi_connect","ssid":"","psk":"secret"}''
        subscribed_state = subscribed_state
   \<and> resolve_op ''{"op":"wifi_connect","psk":"secret"}'' = ''wifi_connect''
   \<and> json_get_string ''{"op":"wifi_connect","psk":"secret"}'' ''ssid'' = []
   \<and> on_write_command example_env ''{"op":"wifi_connect","psk":"secret"}''
        subscribed_state = subscribed_state\<close>
proof -
  have r1: \<open>resolve_op ''{"op":"wifi_connect","ssid":"","psk":"secret"}'' = ''wifi_connect''\<close>
    using example_payloads(11) by (simp add: resolve_op_nonempty)
  have r2: \<open>resolve_op ''{"op":"wifi_connect","psk":"secret"}'' = ''wifi_connect''\<close>
    using example_payloads(13) by (simp add: resolve_op_nonempty)
  show ?thesis
    using wifi_connect_empty_ssid_ignored [OF r1 example_payloads(12), of example_env subscribed_state]
      wifi_connect_empty_ssid_ignored [OF r2 example_payloads(14), of example_env subscribed_state]
      r1 r2 example_payloads(12,14)
    by simp
qed

text \<open>
  C9, as the code has it. The operation is decided by what the extractor returns for the
  key \<^verbatim>\<open>op\<close>, not by whether the payload has an \<^verbatim>\<open>op\<close> field. When the extractor returns the
  empty string for \<^verbatim>\<open>op\<close> (the quoted text \<^verbatim>\<open>op\<close> occurs nowhere in the payload, or no colon
  and non-empty quoted string follow its first occurrence), a payload whose \<^verbatim>\<open>cmd\<close> is
  \<^verbatim>\<open>wifi.scan\<close> runs the scan handler, exactly as every payload whose \<^verbatim>\<open>op\<close> is \<^verbatim>\<open>wifi_scan\<close>
  does; a payload whose \<^verbatim>\<open>cmd\<close> is \<^verbatim>\<open>wifi.connect\<close> runs the connect handler on its extracted
  \<^verbatim>\<open>ssid\<close> and \<^verbatim>\<open>psk\<close> (and does nothing when that \<^verbatim>\<open>ssid\<close> is empty), exactly as every payload
  whose \<^verbatim>\<open>op\<close> is \<^verbatim>\<open>wifi_connect\<close> with the same \<^verbatim>\<open>ssid\<close> and \<^verbatim>\<open>psk\<close> does. When the extractor
  returns a non-empty string for \<^verbatim>\<open>op\<close>, that string alone is the operation, whatever the
  \<^verbatim>\<open>cmd\<close> field holds.
\<close>

theorem legacy_cmd_alias:
  "(json_get_string payload ''op'' = [] \<and> json_get_string payload ''cmd'' = ''wifi.scan'' \<longrightarrow>
      resolve_op payload = ''wifi_scan''
    \<and> on_write_command env payload st = handle_wifi_scan_request env st
    \<and> (\<forall>modern. json_get_string modern ''op'' = ''wifi_scan'' \<longrightarrow>
          on_write_command env modern st = handle_wifi_scan_request env st
        \<and> on_write_command env payload st = on_write_command env modern st))
   \<and> (json_get_string payload ''op'' = [] \<and> json_get_string payload ''cmd'' = ''wifi.connect'' \<longrightarrow>
      resolve_op payload = ''wifi_connect''
    \<and> on_write_command env payload st =
        (if json_get_string payload ''ssid'' = [] then st
         else handle_wifi_connect_request env (json_get_string payload ''ssid'')
                (json_get_string payload ''psk'') st)
    \<and> (\<forall>modern. json_get_string modern ''op'' = ''wifi_connect''
          \<and> json_get_string modern ''ssid'' = json_get_string payload ''ssid''
          \<and> json_get_string modern ''psk'' = json_get_string payload ''psk'' \<longrightarrow>
          on_write_command env modern st =
            (if json_get_string payload ''ssid'' = [] then st
             else handle_wifi_connect_request env (json_get_string payload ''ssid'')
                    (json_get_string payload ''psk'') st)
        \<and> on_write_command env payload st = on_write_command env modern st))
   \<and> (json_get_string payload ''op'' \<noteq> [] \<longrightarrow>
      resolve_op payload = json_get_string payload ''op'')"
proof (intro conjI impI allI)
  assume a: "json_get_string payload ''op'' = [] \<and> json_get_string payload ''cmd'' = ''wifi.scan''"
  then show r: "resolve_op payload = ''wifi_scan''" by (simp add: resolve_op_legacy_scan)
  then show h: "on_write_command env payload st = handle_wifi_scan_request env st"
    by (rule on_write_command_scan)
  fix modern
  assume "json_get_string modern ''op'' = ''wifi_scan''"
  then have "resolve_op modern = ''wifi_scan''" by (simp add: resolve_op_nonempty)
  then show m: "on_write_command env modern st = handle_wifi_scan_request env st"
    by (rule on_write_command_scan)
  with h show "on_write_command env payload st = on_write_command env modern st" by simp
next
  assume a: "json_get_string payload ''op'' = [] \<and> json_get_string payload ''cmd'' = ''wifi.connect''"
  then show r: "resolve_op payload = ''wifi_connect''" by (simp add: resolve_op_legacy_connect)
  then show h: "on_write_command env payload st =
        (if json_get_string payload ''ssid'' = [] then st
         else handle_wifi_connect_request env (json_get_string payload ''ssid'')
                (json_get_string payload ''psk'') st)"
    by (rule on_write_command_connect)
  fix modern
  assume m: "json_get_string modern ''op'' = ''wifi_connect''
          \<and> json_get_string modern ''ssid'' = json_get_string payload ''ssid''
          \<and> json_get_string modern ''psk'' = json_get_string payload ''psk''"
  then have "resolve_op modern = ''wifi_connect''" by (simp add: resolve_op_nonempty)
  then show hm: "on_write_command env modern st =
        (if json_get_string payload ''ssid'' = [] then st
         else handle_wifi_connect_request env (json_get_string payload ''ssid'')
                (json_get_string payload ''psk'') st)"
    using m by (simp add: on_write_command_connect)
  with h show "on_write_command env payload st = on_write_command env modern st" by simp
next
  assume "json_get_string payload ''op'' \<noteq> []"
  then show "resolve_op payload = json_get_string payload ''op''" by (rule resolve_op_nonempty)
qed

text \<open>
  Scenario F of the specification and its connect counterpart, each with what the handler
  it runs does after \<^verbatim>\<open>StartNotify\<close>, and a payload with both fields, where \<^verbatim>\<open>op\<close> wins.
\<close>

theorem legacy_cmd_alias_witness:
  \<open>json_get_string ''{"cmd":"wifi.scan"}'' ''op'' = []
   \<and> json_get_string ''{"cmd":"wifi.scan"}'' ''cmd'' = ''wifi.scan''
   \<and> json_get_string ''{"op":"wifi_scan"}'' ''op'' = ''wifi_scan''
   \<and> on_write_command example_env ''{"cmd":"wifi.scan"}'' subscribed_state =
       on_write_command example_env ''{"op":"wifi_scan"}'' subscribed_state
   \<and> on_write_command example_env ''{"cmd":"wifi.scan"}'' subscribed_state =
       handle_wifi_scan_request example_env subscribed_state
   \<and> g_state (on_write_command example_env ''{"cmd":"wifi.scan"}'' subscribed_state) =
       ''SCAN_COMPLETE''
   \<and> json_get_string ''{"cmd":"wifi.connect","ssid":"HomeNet","psk":"secret"}'' ''op'' = []
   \<and> json_get_string ''{"cmd":"wifi.connect","ssid":"HomeNet","psk":"secret"}'' ''cmd'' =
       ''wifi.connect''
   \<and> on_write_command example_env ''{"cmd":"wifi.connect","ssid":"HomeNet","psk":"secret"}''
        subscribed_state =
       on_write_command example_env ''{"op":"wifi_connect","ssid":"HomeNet","psk":"secret"}''
        subscribed_state
   \<and> on_write_command example_env ''{"cmd":"wifi.connect","ssid":"HomeNet","psk":"secret"}''
        subscribed_state =
       handle_wifi_connect_request example_env ''HomeNet'' ''secret'' subscribed_state
   \<and> g_state (on_write_command example_env
                ''{"cmd":"wifi.connect","ssid":"HomeNet","psk":"secret"}'' subscribed_state) =
       ''CONNECTING''
   \<and> state_notifications (on_write_command example_env
                ''{"cmd":"wifi.connect","ssid":"HomeNet","psk":"secret"}'' subscribed_state) =
       [''{"state":"CONNECTING"}'']
   \<and> json_get_string ''{"op":"wifi_scan","cmd":"wifi.connect"}'' ''op'' \<noteq> []
   \<and> resolve_op ''{"op":"wifi_scan","cmd":"wifi.connect"}'' = ''wifi_scan''\<close>
proof -
  let ?scan = \<open>''{"cmd":"wifi.scan"}''\<close>
  let ?conn = \<open>''{"cmd":"wifi.connect","ssid":"HomeNet","psk":"secret"}''\<close>
  let ?both = \<open>''{"op":"wifi_scan","cmd":"wifi.connect"}''\<close>
  have s: \<open>on_write_command example_env ?scan subscribed_state =
           on_write_command example_env ''{"op":"wifi_scan"}'' subscribed_state\<close>
    using legacy_cmd_alias [of ?scan example_env subscribed_state] example_payloads(1,2,3)
    by blast
  have sh: "on_write_command example_env ?scan subscribed_state =
            handle_wifi_scan_request example_env subscribed_state"
    using legacy_cmd_alias [of ?scan example_env subscribed_state] example_payloads(2,3)
    by blast
  have c: \<open>on_write_command example_env ?conn subscribed_state =
           on_write_command example_env ''{"op":"wifi_connect","ssid":"HomeNet","psk":"secret"}''
             subscribed_state\<close>
    using legacy_cmd_alias [of ?conn example_env subscribed_state] example_payloads(4-10)
    by metis
  have "on_write_command example_env ?conn subscribed_state =
        (if json_get_string ?conn ''ssid'' = [] then subscribed_state
         else handle_wifi_connect_request example_env (json_get_string ?conn ''ssid'')
                (json_get_string ?conn ''psk'') subscribed_state)"
    using legacy_cmd_alias [of ?conn example_env subscribed_state] example_payloads(7,8)
    by blast
  then have ch: "on_write_command example_env ?conn subscribed_state =
        handle_wifi_connect_request example_env ''HomeNet'' ''secret'' subscribed_state"
    by (simp only: example_payloads(9,10)) simp
  have cn: \<open>state_notifications
        (handle_wifi_connect_request example_env ''HomeNet'' ''secret'' subscribed_state) =
        [''{"state":"CONNECTING"}'']\<close>
    using state_notifications_effects
      [OF handle_wifi_connect_request_effects
            [OF example_states_exported(3), of example_env "''HomeNet''" "''secret''"]]
      example_states_exported(4) example_connect(1) example_notifications_none(2)
    by simp
  have cg: "g_state (handle_wifi_connect_request example_env ''HomeNet'' ''secret''
                       subscribed_state) = ''CONNECTING''"
    by (simp add: handle_wifi_connect_request_g_state example_connect(1))
  have sg: "g_state (handle_wifi_scan_request example_env subscribed_state) = ''SCAN_COMPLETE''"
    by (rule handle_wifi_scan_request_g_state)
  have ne: "json_get_string ?both ''op'' \<noteq> []"
    by (simp add: example_payloads(15))
  have b: "resolve_op ?both = ''wifi_scan''"
    using legacy_cmd_alias [of ?both] ne example_payloads(15) by simp
  show ?thesis
    using s c b ne example_payloads(2,3,1,7,8) sh ch cn cg sg by simp
qed

lemma key_in_value_payloads:
  \<open>json_get_string ''{"cmd":"wifi.connect","ssid":"op","psk":"secret12"}'' ''op'' = ''secret12''\<close>
  \<open>json_get_string ''{"cmd":"wifi.connect","ssid":"op","psk":"secret12"}'' ''cmd'' =
     ''wifi.connect''\<close>
  \<open>json_get_string ''{"cmd":"wifi.connect","ssid":"op","psk":"secret12"}'' ''ssid'' = ''op''\<close>
  \<open>json_get_string ''{"cmd":"wifi.connect","ssid":"op","psk":"secret12"}'' ''psk'' = ''secret12''\<close>
  \<open>json_get_string ''{"op":"wifi_connect","ssid":"op","psk":"secret12"}'' ''op'' = ''wifi_connect''\<close>
  \<open>json_get_string ''{"op":"wifi_connect","ssid":"op","psk":"secret12"}'' ''ssid'' = ''op''\<close>
  \<open>json_get_string ''{"op":"wifi_connect","ssid":"op","psk":"secret12"}'' ''psk'' = ''secret12''\<close>
  \<open>str_find ''{"cmd":"wifi.connect","ssid":"op","psk":"secret12"}'' ''"op"'' 0 = Some 29\<close>
  \<open>str_find ''{"cmd":"wifi.connect","ssid":"op","psk":"secret12"}'' ''"op"'' 30 = None\<close>
  by (simp_all add: json_get_string_def str_find_def substr_def)

text \<open>
  C9 as stated fails on a legacy connect request without an \<^verbatim>\<open>op\<close> field whose SSID is the
  two letters \<^verbatim>\<open>op\<close>. The quoted text \<^verbatim>\<open>op\<close> occurs once in the payload, at position 29, as
  the value of \<^verbatim>\<open>ssid\<close>; the extractor takes it for the key and returns the next quoted
  string after the following colon, the passphrase, as the operation. That operation is
  not empty, so \<^verbatim>\<open>cmd\<close> is not consulted, and it is unknown, so the write is dropped with
  the state as it was. The same request with \<^verbatim>\<open>op\<close> set to \<^verbatim>\<open>wifi_connect\<close> runs the connect
  handler on the same \<^verbatim>\<open>ssid\<close> and \<^verbatim>\<open>psk\<close> and moves the state to \<^verbatim>\<open>CONNECTING\<close>.
\<close>

theorem legacy_cmd_alias_counterexample:
  \<open>reachable subscribed_state
   \<and> json_get_string ''{"cmd":"wifi.connect","ssid":"op","psk":"secret12"}'' ''cmd'' =
       ''wifi.connect''
   \<and> json_get_string ''{"cmd":"wifi.connect","ssid":"op","psk":"secret12"}'' ''ssid'' = ''op''
   \<and> str_find ''{"cmd":"wifi.connect","ssid":"op","psk":"secret12"}'' ''"op"'' 0 = Some 29
   \<and> str_find ''{"cmd":"wifi.connect","ssid":"op","psk":"secret12"}'' ''"op"'' 30 = None
   \<and> json_get_string ''{"cmd":"wifi.connect","ssid":"op","psk":"secret12"}'' ''op'' = ''secret12''
   \<and> resolve_op ''{"cmd":"wifi.connect","ssid":"op","psk":"secret12"}'' = ''secret12''
   \<and> on_write_command example_env ''{"cmd":"wifi.connect","ssid":"op","psk":"secret12"}''
         subscribed_state = subscribed_state
   \<and> on_write_command example_env ''{"op":"wifi_connect","ssid":"op","psk":"secret12"}''
         subscribed_state =
       handle_wifi_connect_request example_env ''op'' ''secret12'' subscribed_state
   \<and> g_state (on_write_command example_env ''{"op":"wifi_connect","ssid":"op","psk":"secret12"}''
         subscribed_state) = ''CONNECTING''
   \<and> g_state subscribed_state = ''UNCONFIGURED''
   \<and> on_write_command example_env ''{"cmd":"wifi.connect","ssid":"op","psk":"secret12"}''
         subscribed_state \<noteq>
       on_write_command example_env ''{"op":"wifi_connect","ssid":"op","psk":"secret12"}''
         subscribed_state\<close>
proof -
  let ?legacy = \<open>''{"cmd":"wifi.connect","ssid":"op","psk":"secret12"}''\<close>
  let ?modern = \<open>''{"op":"wifi_connect","ssid":"op","psk":"secret12"}''\<close>
  have r: "resolve_op ?legacy = ''secret12''"
    using key_in_value_payloads(1) by (simp add: resolve_op_nonempty)
  have ne: "?legacy \<noteq> []" by simp
  have dropped: "on_write_command example_env ?legacy subscribed_state = subscribed_state"
    using r ne by (simp add: on_write_command_def)
  have rm: "resolve_op ?modern = ''wifi_connect''"
    using key_in_value_payloads(5) by (simp add: resolve_op_nonempty)
  have run: "on_write_command example_env ?modern subscribed_state =
             handle_wifi_connect_request example_env ''op'' ''secret12'' subscribed_state"
    using on_write_command_connect [OF rm, of example_env subscribed_state]
    by (simp only: key_in_value_payloads(6,7)) simp
  have g: "g_state (handle_wifi_connect_request example_env ''op'' ''secret12'' subscribed_state) =
           ''CONNECTING''"
    by (simp add: handle_wifi_connect_request_g_state example_connect(1))
  have g0: "g_state subscribed_state = ''UNCONFIGURED''"
    by (simp add: subscribed_state_def)
  have differ: "on_write_command example_env ?legacy subscribed_state \<noteq>
                on_write_command example_env ?modern subscribed_state"
  proof
    assume "on_write_command example_env ?legacy subscribed_state =
            on_write_command example_env ?modern subscribed_state"
    then have "g_state subscribed_state =
               g_state (handle_wifi_connect_request example_env ''op'' ''secret12'' subscribed_state)"
      by (simp only: dropped run)
    then show False by (simp only: g g0) simp
  qed
  show ?thesis
    using reachable_subscribed_state key_in_value_payloads(1,2,3,8,9) r dropped run g g0 differ
    by (simp only:) simp
qed

section \<open>Reachable states and ReadValue\<close>

lemma startup_invariant:
  assumes "startup r0 r1 r2 = Inr st"
  shows "state_exported st" and "g_state st = ''UNCONFIGURED''"
  using assms paths_distinct
  by (auto simp: startup_def export_device_info_def export_state_def export_command_def
      export_characteristic_def initial_state_def state_exported_def Let_def
      split: sum.splits if_splits)

lemma set_notifying_exported:
  "state_exported (set_notifying path b st) = state_exported st"
  by (auto simp: set_notifying_def state_exported_def split: option.splits)

lemma on_write_command_exported:
  "state_exported (on_write_command env val st) = state_exported st"
  by (simp add: on_write_command_def Let_def handle_wifi_scan_request_exported
      handle_wifi_connect_request_exported)

lemma on_write_command_g_state:
  "g_state (on_write_command env val st) \<in> {g_state st} \<union> set state_names"
  by (simp add: on_write_command_def Let_def handle_wifi_scan_request_g_state
      handle_wifi_connect_request_g_state state_names_def)

lemma on_ipv4_ready_g_state_names:
  "g_state (on_ipv4_ready env st) \<in> {g_state st} \<union> set state_names"
  by (simp add: on_ipv4_ready_g_state state_names_def split: option.splits)

lemma on_state_notify_exported:
  "state_exported (on_state_notify env enabled st) = state_exported st"
  by (simp add: on_state_notify_def notify_ipv4_ready_def on_ipv4_ready_exported)

lemma on_state_notify_g_state:
  "g_state (on_state_notify env enabled st) \<in> {g_state st} \<union> set state_names"
  using on_ipv4_ready_g_state_names [of env st]
  by (simp add: on_state_notify_def notify_ipv4_ready_def)

lemma on_method_call_exported:
  "state_exported (snd (on_method_call env path m st)) = state_exported st"
proof (cases "g_chars st path")
  case None
  then show ?thesis by (simp add: on_method_call_def)
next
  case (Some ctx)
  show ?thesis
  proof (cases m)
    case ReadValue
    with Some show ?thesis by (simp add: on_method_call_def split: option.splits)
  next
    case (WriteValue val)
    with Some show ?thesis
      by (cases "write_cb ctx"; cases "the (write_cb ctx)")
         (auto simp: on_method_call_def on_write_command_exported)
  next
    case StartNotify
    with Some show ?thesis
      by (cases "notify_cb ctx"; cases "the (notify_cb ctx)")
         (auto simp: on_method_call_def on_state_notify_exported set_notifying_exported)
  next
    case StopNotify
    with Some show ?thesis
      by (cases "notify_cb ctx"; cases "the (notify_cb ctx)")
         (auto simp: on_method_call_def on_state_notify_exported set_notifying_exported)
  next
    case (OtherMethod name)
    with Some show ?thesis by (simp add: on_method_call_def)
  qed
qed

lemma on_method_call_g_state:
  "g_state (snd (on_method_call env path m st)) \<in> {g_state st} \<union> set state_names"
proof (cases "g_chars st path")
  case None
  then show ?thesis by (simp add: on_method_call_def)
next
  case (Some ctx)
  show ?thesis
  proof (cases m)
    case ReadValue
    with Some show ?thesis by (simp add: on_method_call_def split: option.splits)
  next
    case (WriteValue val)
    with Some on_write_command_g_state [of env val st] show ?thesis
      by (cases "write_cb ctx"; cases "the (write_cb ctx)") (auto simp: on_method_call_def)
  next
    case StartNotify
    with Some on_state_notify_g_state [of env True "set_notifying path True st"] show ?thesis
      by (cases "notify_cb ctx"; cases "the (notify_cb ctx)")
         (auto simp: on_method_call_def set_notifying_State)
  next
    case StopNotify
    with Some on_state_notify_g_state [of env False "set_notifying path False st"] show ?thesis
      by (cases "notify_cb ctx"; cases "the (notify_cb ctx)")
         (auto simp: on_method_call_def set_notifying_State)
  next
    case (OtherMethod name)
    with Some show ?thesis by (simp add: on_method_call_def)
  qed
qed

lemma reachable_invariant:
  "reachable st \<Longrightarrow> state_exported st \<and> g_state st \<in> set state_names"
proof (induction rule: reachable.induct)
  case (started r0 r1 r2 st)
  then show ?case using startup_invariant [of r0 r1 r2 st] by (simp add: state_names_def)
next
  case (method_call st env path m)
  then show ?case
    using on_method_call_g_state [of env path m st] by (auto simp: on_method_call_exported)
next
  case (ipv4_ready st env)
  then show ?case
    using on_ipv4_ready_g_state_names [of env st] by (auto simp: on_ipv4_ready_exported)
qed

lemma state_names_no_nul: "s \<in> set state_names \<Longrightarrow> CHR 0x00 \<notin> set s"
  by (auto simp: state_names_def)

lemma read_value_State:
  "state_exported st \<Longrightarrow>
   on_method_call env CHR_STATE ReadValue st = (ReturnValue (make_state_payload (g_state st)), st)"
  by (auto simp: on_method_call_def state_exported_def on_read_state_def split: option.splits)

text \<open>
  C10. In every reachable state, \<^verbatim>\<open>ReadValue\<close> on State returns exactly the state payload
  for the current provisioning state, which is one of the five state names, and changes
  nothing. In the state \<^verbatim>\<open>CONNECTED\<close> the value read is the plain state payload, without
  the \<^verbatim>\<open>ssid\<close> and \<^verbatim>\<open>ip\<close> fields of the \<^verbatim>\<open>CONNECTED\<close> notification.
\<close>

theorem read_state_value:
  assumes "reachable st"
  shows \<open>on_method_call env CHR_STATE ReadValue st =
          (ReturnValue (''{"state":"'' @ g_state st @ ''"}''), st)
       \<and> g_state st \<in> set state_names
       \<and> (g_state st = ''CONNECTED'' \<longrightarrow>
            fst (on_method_call env CHR_STATE ReadValue st) =
              ReturnValue ''{"state":"CONNECTED"}'')\<close>
proof -
  from reachable_invariant [OF assms]
  have e: "state_exported st" and n: "g_state st \<in> set state_names" by simp_all
  have "make_state_payload (g_state st) = state_payload_open @ g_state st @ payload_close"
    using state_names_no_nul [OF n] by (rule make_state_payload_plain)
  then show ?thesis
    using read_value_State [OF e, of env] n
    by (auto simp: state_payload_open_def payload_close_def)
qed

text \<open>
  After \<^verbatim>\<open>StartNotify\<close> in the example platform the state is \<^verbatim>\<open>CONNECTED\<close>: the notification
  carried the SSID and the address, the value read does not.
\<close>

theorem read_state_value_witness:
  \<open>reachable (snd (on_method_call example_env CHR_STATE StartNotify started_state))
   \<and> g_state (snd (on_method_call example_env CHR_STATE StartNotify started_state)) =
       ''CONNECTED''
   \<and> state_notifications (snd (on_method_call example_env CHR_STATE StartNotify started_state)) =
       [''{"state":"CONNECTED","ssid":"HomeNet","ip":"192.168.1.20"}'']
   \<and> fst (on_method_call example_env CHR_STATE ReadValue
            (snd (on_method_call example_env CHR_STATE StartNotify started_state))) =
       ReturnValue ''{"state":"CONNECTED"}''
   \<and> reachable started_state
   \<and> fst (on_method_call example_env CHR_STATE ReadValue started_state) =
       ReturnValue ''{"state":"UNCONFIGURED"}''\<close>
proof -
  let ?st = "snd (on_method_call example_env CHR_STATE StartNotify started_state)"
  have r: "reachable ?st"
    using reachable_started_state by (rule reachable.method_call)
  have un: "?st = on_ipv4_ready example_env (set_notifying CHR_STATE True started_state)"
    by (simp add: start_notify_State [OF example_states_exported(1)])
  have e1: "state_exported (set_notifying CHR_STATE True started_state)"
    "state_notifying (set_notifying CHR_STATE True started_state)"
    using example_states_exported(1) by (simp_all add: set_notifying_State)
  have g: "g_state ?st = ''CONNECTED''"
    by (simp add: un on_ipv4_ready_g_state example_wlan0_ssid_ip)
  have n: "state_notifications ?st = [connected_payload ''HomeNet'' ''192.168.1.20'']"
    using on_ipv4_ready_notifications [OF e1(1), of example_env] e1(2)
    by (simp add: un example_wlan0_ssid_ip set_notifying_State example_notifications_none)
  have g0: "g_state started_state = ''UNCONFIGURED''" by (simp add: started_state_def)
  show ?thesis
    using read_state_value [OF r, of example_env]
      read_state_value [OF reachable_started_state, of example_env] r g n g0
      reachable_started_state
    by (simp add: example_connected_payload)
qed

section \<open>The scan result\<close>

lemma map_of_map_assign: "map_of (map_assign k v m) = (map_of m)(k \<mapsto> v)"
  by (induction k v m rule: map_assign.induct) (auto simp: fun_upd_twist)

lemma keys_map_assign: "set (map fst (map_assign k v m)) = insert k (set (map fst m))"
  by (induction k v m rule: map_assign.induct) auto

lemma sorted_map_assign:
  "sorted_wrt (<) (map fst m) \<Longrightarrow> sorted_wrt (<) (map fst (map_assign k v m))"
proof (induction k v m rule: map_assign.induct)
  case (1 k v)
  then show ?case by simp
next
  case (2 k v k' v' m)
  show ?case
  proof (cases "k = k'")
    case True
    with "2.prems" show ?thesis by simp
  next
    case ne: False
    show ?thesis
    proof (cases "k < k'")
      case True
      with "2.prems" ne show ?thesis by (auto intro: less_trans)
    next
      case False
      with ne have gt: "k' < k" by simp
      have "sorted_wrt (<) (map fst (map_assign k v m))"
        using "2.IH" [OF ne False] "2.prems" by simp
      moreover have "\<forall>y\<in>set (map fst (map_assign k v m)). k' < y"
        using "2.prems" gt by (simp add: keys_map_assign del: set_map)
      ultimately show ?thesis using ne False by simp
    qed
  qed
qed

lemma keep_best_Some: "keep_best (Some c) vs = Some (Max (insert c (set vs)))"
proof (induction vs arbitrary: c)
  case Nil
  then show ?case by simp
next
  case (Cons v vs)
  have m: "(if c < v then v else c) = max c v" by (auto simp: max_def)
  have "Max (insert c (insert v (set vs))) = Max (insert (max c v) (set vs))"
    by (cases "set vs = {}") (simp_all add: max.assoc)
  with Cons m show ?case by simp
qed

lemma keep_best_None:
  "keep_best None vs = (if vs = [] then None else Some (Max (set vs)))"
  by (cases vs) (simp_all add: keep_best_Some)

lemma ssid_to_string_cases:
  "ssid_to_string b = (case b of None \<Rightarrow> [] | Some data \<Rightarrow> data)"
  by (simp add: ssid_to_string_def split: option.splits)

lemma observations_Some:
  "observations (Some ap # aps) =
     (if ssid_to_string (ap_ssid ap) = [] then observations aps
      else (ssid_to_string (ap_ssid ap), uint (ap_strength ap)) # observations aps)"
  by (simp add: ssid_to_string_cases split: option.splits)

lemma observations_nonempty: "(s, v) \<in> set (observations aps) \<Longrightarrow> s \<noteq> []"
  by (induction aps rule: observations.induct) (auto split: option.splits if_splits)

lemma collect_best_sorted:
  "sorted_wrt (<) (map fst best) \<Longrightarrow> sorted_wrt (<) (map fst (collect_best aps best))"
proof (induction aps best rule: collect_best.induct)
  case (1 best)
  then show ?case by simp
next
  case (2 aps best)
  then show ?case by simp
next
  case (3 ap aps best)
  then show ?case
    by (auto simp: Let_def sorted_map_assign split: option.splits)
qed

lemma collect_best_map_of:
  "map_of (collect_best aps best) s =
     keep_best (map_of best s) (strengths (observations aps) s)"
proof (induction aps best rule: collect_best.induct)
  case (1 best)
  then show ?case by (simp add: strengths_def)
next
  case (2 aps best)
  then show ?case by simp
next
  case (3 ap aps best)
  let ?ssid = "ssid_to_string (ap_ssid ap)"
  let ?strength = "uint (ap_strength ap)"
  show ?case
  proof (cases "?ssid = []")
    case True
    then show ?thesis using "3.IH"(1) by (simp add: Let_def observations_Some del: observations.simps)
  next
    case ne: False
    have obs: "strengths (observations (Some ap # aps)) s =
        (if ?ssid = s then ?strength # strengths (observations aps) s
         else strengths (observations aps) s)"
      using ne by (simp add: strengths_def observations_Some del: observations.simps)
    show ?thesis
    proof (cases "map_of best ?ssid")
      case None
      then have "collect_best (Some ap # aps) best =
                 collect_best aps (map_assign ?ssid ?strength best)"
        using ne by (simp add: Let_def)
      moreover have "map_of (collect_best aps (map_assign ?ssid ?strength best)) s =
          keep_best (map_of (map_assign ?ssid ?strength best) s) (strengths (observations aps) s)"
        using "3.IH"(2) [OF refl ne refl None] .
      ultimately show ?thesis using None obs by (auto simp: map_of_map_assign)
    next
      case (Some cur)
      show ?thesis
      proof (cases "?strength > cur")
        case True
        then have "collect_best (Some ap # aps) best =
                   collect_best aps (map_assign ?ssid ?strength best)"
          using ne Some by (simp add: Let_def)
        moreover have "map_of (collect_best aps (map_assign ?ssid ?strength best)) s =
            keep_best (map_of (map_assign ?ssid ?strength best) s) (strengths (observations aps) s)"
          using "3.IH"(3) [OF refl ne refl Some True] .
        ultimately show ?thesis using Some obs True by (auto simp: map_of_map_assign)
      next
        case False
        then have "collect_best (Some ap # aps) best = collect_best aps best"
          using ne Some by (simp add: Let_def)
        moreover have "map_of (collect_best aps best) s =
            keep_best (map_of best s) (strengths (observations aps) s)"
          using "3.IH"(4) [OF refl ne refl Some False] .
        ultimately show ?thesis using Some obs False by auto
      qed
    qed
  qed
qed

lemma strengths_empty_iff: "strengths obs s = [] \<longleftrightarrow> s \<notin> fst ` set obs"
  by (auto simp: strengths_def filter_empty_conv)

lemma collect_best_keys:
  "set (map fst (collect_best aps [])) = fst ` set (observations aps)"
proof -
  have "s \<in> set (map fst (collect_best aps [])) \<longleftrightarrow> s \<in> fst ` set (observations aps)" for s
  proof -
    have "s \<in> set (map fst (collect_best aps [])) \<longleftrightarrow> map_of (collect_best aps []) s \<noteq> None"
      by (simp add: map_of_eq_None_iff)
    also have "\<dots> \<longleftrightarrow> strengths (observations aps) s \<noteq> []"
      by (simp add: collect_best_map_of keep_best_None)
    finally show ?thesis by (simp add: strengths_empty_iff)
  qed
  then show ?thesis by blast
qed

lemma collect_best_distinct: "distinct (map fst (collect_best aps []))"
  using collect_best_sorted [of "[]" aps] by (simp add: strict_sorted_iff)

lemma collect_best_strongest:
  assumes "(s, v) \<in> set (collect_best aps [])"
  shows "v = strongest (observations aps) s"
proof -
  have "map_of (collect_best aps []) s = Some v"
    using assms collect_best_distinct [of aps] by simp
  then have "keep_best None (strengths (observations aps) s) = Some v"
    by (simp add: collect_best_map_of)
  then show ?thesis
    by (simp add: keep_best_None strongest_def split: if_splits)
qed

lemma std_sort_ok_Nil: "std_sort_ok srt \<Longrightarrow> srt [] = []"
  by (metis mset_zero_iff std_sort_ok_def)

lemma scan_ssids_result:
  assumes "std_sort_ok (std_sort env)"
  shows "fst (scan_ssids env st) =
     (if g_scan_busy st then []
      else map fst (std_sort env (collect_best (scanned_aps env) [])))"
proof (cases "g_scan_busy st")
  case True
  then show ?thesis by (simp add: scan_ssids_busy)
next
  case False
  then show ?thesis
    using std_sort_ok_Nil [OF assms]
    by (simp add: scan_ssids_free scan_body_def scanned_aps_def Let_def split: option.splits)
qed

lemma sorted_result_ranked:
  assumes ok: "std_sort_ok srt"
  shows "distinct (map fst (srt (collect_best aps [])))"
    and "set (map fst (srt (collect_best aps []))) = fst ` set (observations aps)"
    and "sorted_wrt (\<lambda>a b. strongest (observations aps) a \<ge> strongest (observations aps) b)
           (map fst (srt (collect_best aps [])))"
proof -
  let ?best = "collect_best aps []"
  have perm: "mset (srt ?best) = mset ?best"
    and desc: "sorted_wrt (\<lambda>a b. \<not> snd b > snd a) (srt ?best)"
    using ok by (simp_all add: std_sort_ok_def)
  have "mset (map fst (srt ?best)) = mset (map fst ?best)"
    using perm by (metis mset_map)
  then show "distinct (map fst (srt ?best))"
    using collect_best_distinct [of aps] mset_eq_imp_distinct_iff by blast
  have same_set: "set (srt ?best) = set ?best"
    using perm by (rule mset_eq_setD)
  then show "set (map fst (srt ?best)) = fst ` set (observations aps)"
    using collect_best_keys [of aps] by simp
  have "sorted_wrt (\<lambda>a b. strongest (observations aps) (fst a) \<ge>
                            strongest (observations aps) (fst b)) (srt ?best)"
  proof (rule sorted_wrt_mono_rel [OF _ desc])
    fix a b
    assume a: "a \<in> set (srt ?best)" and b: "b \<in> set (srt ?best)" and le: "\<not> snd b > snd a"
    have "snd a = strongest (observations aps) (fst a)"
      using a same_set collect_best_strongest [of "fst a" "snd a" aps] by simp
    moreover have "snd b = strongest (observations aps) (fst b)"
      using b same_set collect_best_strongest [of "fst b" "snd b" aps] by simp
    ultimately show "strongest (observations aps) (fst b) \<le> strongest (observations aps) (fst a)"
      using le by simp
  qed
  then show "sorted_wrt (\<lambda>a b. strongest (observations aps) a \<ge> strongest (observations aps) b)
           (map fst (srt ?best))"
    by (simp add: sorted_wrt_map)
qed

text \<open>
  C5. Whatever \<^verbatim>\<open>std::sort\<close> does with elements of equal strength, the list returned by
  \<^verbatim>\<open>scan_ssids\<close> has no SSID twice and no empty SSID, holds only SSIDs of observed access
  points (and, unless the scan was refused because another one is in progress, every
  non-empty SSID observed), and is in descending order of the strongest signal observed
  for each SSID among the access points that share it.
\<close>

theorem scan_result_ranked:
  assumes "std_sort_ok (std_sort env)"
  shows "distinct (fst (scan_ssids env st))
       \<and> [] \<notin> set (fst (scan_ssids env st))
       \<and> set (fst (scan_ssids env st)) \<subseteq> fst ` set (observations (scanned_aps env))
       \<and> (\<not> g_scan_busy st \<longrightarrow>
            set (fst (scan_ssids env st)) = fst ` set (observations (scanned_aps env)))
       \<and> sorted_wrt (\<lambda>a b. strongest (observations (scanned_aps env)) a
                           \<ge> strongest (observations (scanned_aps env)) b)
            (fst (scan_ssids env st))"
proof (cases "g_scan_busy st")
  case True
  then show ?thesis by (simp add: scan_ssids_busy)
next
  case False
  let ?ssids = "map fst (std_sort env (collect_best (scanned_aps env) []))"
  have r: "fst (scan_ssids env st) = ?ssids"
    using False by (simp add: scan_ssids_result [OF assms])
  note ranked = sorted_result_ranked [OF assms, of "scanned_aps env"]
  have "[] \<notin> set ?ssids"
    using ranked(2) observations_nonempty [of "[]" _ "scanned_aps env"] by auto
  then show ?thesis
    using ranked False by (simp only: r) simp
qed

lemma insertion_sort_desc_ok: "std_sort_ok insertion_sort_desc"
proof -
  have "sorted (map (\<lambda>kv. - snd kv) (insertion_sort_desc xs))" for xs :: "(string \<times> int) list"
    by (simp add: insertion_sort_desc_def)
  then have "sorted_wrt (\<lambda>a b. \<not> snd b > snd a) (insertion_sort_desc xs)"
    for xs :: "(string \<times> int) list"
    by (simp add: sorted_map not_less)
  then show ?thesis
    by (simp add: std_sort_ok_def insertion_sort_desc_def)
qed

lemma example_observations:
  "observations (scanned_aps example_env) = [(''HomeNet'', 80), (''HomeNet'', 60), (''Cafe'', 40)]"
  by (simp add: scanned_aps_def example_env_def first_wifi_device_def example_wlan0_def
      example_aps_def)

lemma example_strongest:
  "strongest (observations (scanned_aps example_env)) ''HomeNet'' = 80"
  "strongest (observations (scanned_aps example_env)) ''Cafe'' = 40"
  by (simp_all add: example_observations strongest_def strengths_def)

text \<open>
  Scenario A of the specification: \<^verbatim>\<open>HomeNet\<close> seen at 80 and at 60 and \<^verbatim>\<open>Cafe\<close> at 40 give
  \<^verbatim>\<open>HomeNet\<close>, ranked by 80, before \<^verbatim>\<open>Cafe\<close>.
\<close>

theorem scan_result_ranked_witness:
  "std_sort_ok (std_sort example_env)
   \<and> \<not> g_scan_busy started_state
   \<and> fst (scan_ssids example_env started_state) = [''HomeNet'', ''Cafe'']
   \<and> distinct (fst (scan_ssids example_env started_state))
   \<and> set (fst (scan_ssids example_env started_state)) =
       fst ` set (observations (scanned_aps example_env))
   \<and> strongest (observations (scanned_aps example_env)) ''HomeNet'' = 80
   \<and> strongest (observations (scanned_aps example_env)) ''Cafe'' = 40"
proof -
  have ok: "std_sort_ok (std_sort example_env)"
    using insertion_sort_desc_ok by (simp add: example_env_def)
  have free: "\<not> g_scan_busy started_state" by (simp add: started_state_def)
  show ?thesis
    using scan_result_ranked [OF ok, of started_state] ok free example_scan example_strongest
    by simp
qed

end
